theory Spec2Isabelle
  imports Main "HOL-Library.Word"
begin

section \<open>Values of the program\<close>

text \<open>
  A Go \<open>error\<close> value is identified with the message its \<open>Error()\<close> method returns.
  Heap objects (connections, broker channels, Go channels made with \<open>make\<close>) are
  identified by a number; a nil pointer is \<open>None\<close>.
\<close>

datatype error = Err string

fun Error :: "error \<Rightarrow> string" where
  "Error (Err m) = m"

type_synonym ptr = nat

text \<open>
  The dynamic values stored in a \<open>map[string]interface{}\<close>: nil, bool, int64, string,
  \<open>[]string\<close>, a nested map (its entries, keys distinct) and a slice. A JSON number,
  which the decoder returns as a float64, is carried as its literal text.
\<close>

datatype any =
    ANil
  | ABool bool
  | AInt int
  | ANumber string
  | AString string
  | AStrings "string list"
  | AMap "(string \<times> any) list"
  | ASlice "any list"

text \<open>\<open>types.SubscriberOption\<close>, as \<open>SetConsume\<close> reads it.\<close>

record SubscriberOption =
  Identity :: string
  Queue :: string
  Url :: string
  Secret :: string

text \<open>\<open>types.FetchOption\<close> (fields \<open>Url\<close>, \<open>Secret\<close>, \<open>Body\<close> in the source).\<close>

record FetchOption =
  Fetch_Url :: string
  Fetch_Secret :: string
  Fetch_Body :: string

text \<open>\<open>types.LoggingPush\<close> (fields \<open>Identity\<close>, \<open>HasError\<close>, \<open>Message\<close> in the source).\<close>

record LoggingPush =
  Push_Identity :: string
  HasError :: bool
  Message :: "(string \<times> any) list"

text \<open>An \<open>amqp.Delivery\<close>: its body and the tag that \<open>Ack\<close> and \<open>Nack\<close> refer to.\<close>

record Delivery =
  Body :: string
  DeliveryTag :: nat

section \<open>Effects\<close>

text \<open>
  Everything the code does to the outside is an event of a trace, in program order:
  log lines, sleeps, calls to the broker library, to the webhook forwarder and to the
  audit sink, sends on Go channels, and the goroutines started with \<open>go\<close>.
\<close>

datatype goroutine =
    ListenConn
  | ListenChannel string
  | ConsumeLoop SubscriberOption ptr

datatype arg = S string | N int | E error

datatype event =
    LogError "arg list"
  | LogInfo "arg list"
  | Sleep int
  | Dial string
  | ConnNotifyClose ptr ptr
  | ChannelOpened ptr ptr
  | ChannelRefused ptr error
  | ChanNotifyClose ptr ptr
  | SchemaGet string
  | Consume ptr string string bool bool bool bool
  | ChanSend ptr int
  | ChannelClose ptr
  | ChannelDied ptr
  | Go goroutine
  | FetchCall FetchOption
  | Ack Delivery bool
  | Nack Delivery bool bool
  | Push LoggingPush

section \<open>The consumer dispatch pipeline\<close>

text \<open>
  The third-party functions the per-message loop calls are parameters:
  \<open>Valid\<close> is \<open>jsoniter.Valid\<close>; \<open>Unmarshal b\<close> is the value that
  \<open>jsoniter.Unmarshal(b, &v)\<close> leaves in a nil \<open>v\<close> (the code discards the returned
  error); \<open>Validate schema doc\<close> is \<open>gojsonschema.Validate\<close> on two byte loaders,
  \<open>Inl\<close> its error and \<open>Inr\<close> the \<open>Valid()\<close> of its result.
\<close>

record lib =
  Valid :: "string \<Rightarrow> bool"
  Unmarshal :: "string \<Rightarrow> any"
  Validate :: "string \<Rightarrow> string \<Rightarrow> error + bool"

text \<open>
  What the outside answers during one iteration of the loop: the result of
  \<open>actions.Fetch\<close> (response bytes and error list) and \<open>time.Now().Unix()\<close>.
\<close>

record outside =
  Fetch :: "FetchOption \<Rightarrow> string \<times> error list"
  Unix :: int

definition object_schema :: string where
  "object_schema = ''{\"type\":\"object\"}''"

text \<open>
  One iteration of \<open>for d := range msgs\<close> in \<open>SetConsume\<close>: the events it performs, and
  whether the loop goes on to the next delivery (\<open>False\<close> is the \<open>return\<close> of the
  goroutine).
\<close>

definition deliver :: "lib \<Rightarrow> SubscriberOption \<Rightarrow> outside \<Rightarrow> Delivery \<Rightarrow> event list \<times> bool" where
  "deliver L option w d =
    (let fo = \<lparr>Fetch_Url = Url option, Fetch_Secret = Secret option, Fetch_Body = Body d\<rparr>;
         (body, errs) = Fetch w fo
     in
       if Valid L (Body d) then
         (let bodyRecord = Unmarshal L (Body d) in
          if length errs \<noteq> 0 then
            (let msg = map Error errs;
                 message =
                   [(''Identity'', AString (Identity option)),
                    (''Queue'', AString (Queue option)),
                    (''Url'', AString (Url option)),
                    (''Secret'', AString (Secret option)),
                    (''Body'', bodyRecord),
                    (''Status'', ABool False),
                    (''Response'', AMap [(''errs'', AStrings msg)]),
                    (''Time'', AInt (Unix w))]
             in ([FetchCall fo, Nack d False False,
                  Push \<lparr>Push_Identity = Identity option, HasError = (length errs \<noteq> 0),
                        Message = message\<rparr>], True))
          else
            (let responseRecord =
                   (case Validate L object_schema body of
                      Inl err \<Rightarrow> AMap [(''raw'', AString body)]
                    | Inr valid \<Rightarrow>
                        if valid then Unmarshal L body
                        else AMap [(''raw'', AString body)]);
                 message =
                   [(''Identity'', AString (Identity option)),
                    (''Queue'', AString (Queue option)),
                    (''Url'', AString (Url option)),
                    (''Secret'', AString (Secret option)),
                    (''Body'', bodyRecord),
                    (''Status'', ABool True),
                    (''Response'', responseRecord),
                    (''Time'', AInt (Unix w))]
             in ([FetchCall fo, Ack d False,
                  Push \<lparr>Push_Identity = Identity option, HasError = (length errs \<noteq> 0),
                        Message = message\<rparr>], True)))
       else ([FetchCall fo, Nack d False False], False))"

text \<open>
  The goroutine of \<open>SetConsume\<close> over the deliveries of the stream, each paired with what
  the outside answers while it is handled.
\<close>

fun consume_loop :: "lib \<Rightarrow> SubscriberOption \<Rightarrow> (Delivery \<times> outside) list \<Rightarrow> event list" where
  "consume_loop L option [] = []"
| "consume_loop L option ((d, w) # rest) =
    (case deliver L option w d of
       (evs, True) \<Rightarrow> evs @ consume_loop L option rest
     | (evs, False) \<Rightarrow> evs)"

text \<open>A lookup in a map literal.\<close>

definition field :: "(string \<times> any) list \<Rightarrow> string \<Rightarrow> any option" where
  "field m k = map_of m k"

text \<open>The audit records an event list pushes, in order.\<close>

fun pushes :: "event list \<Rightarrow> LoggingPush list" where
  "pushes [] = []"
| "pushes (Push p # evs) = p # pushes evs"
| "pushes (_ # evs) = pushes evs"

text \<open>The webhook calls of an event list, in order.\<close>

fun fetches :: "event list \<Rightarrow> FetchOption list" where
  "fetches [] = []"
| "fetches (FetchCall fo # evs) = fo # fetches evs"
| "fetches (_ # evs) = fetches evs"

section \<open>The session and the world it runs in\<close>

text \<open>
  An execution either returns, panics (a nil pointer is dereferenced) or blocks for
  ever (a send on a Go channel that is nil or that no goroutine receives from).
\<close>

datatype 'a exec = Ok 'a | Panic | Blocked

fun and_then :: "'a exec \<Rightarrow> ('a \<Rightarrow> 'b exec) \<Rightarrow> 'b exec" where
  "and_then (Ok x) f = f x"
| "and_then Panic f = Panic"
| "and_then Blocked f = Blocked"

text \<open>
  The fields of \<open>AmqpDrive\<close>. A pointer field is \<open>None\<close> while it is nil; the four
  registries are pointers to maps keyed by the identity.
\<close>

record AmqpDrive =
  url :: string
  schema :: "ptr option"
  logging :: "ptr option"
  conn :: "ptr option"
  notifyConnClose :: "ptr option"
  channel :: "(string \<rightharpoonup> ptr) option"
  channelDone :: "(string \<rightharpoonup> ptr) option"
  channelReady :: "(string \<rightharpoonup> bool) option"
  notifyChanClose :: "(string \<rightharpoonup> ptr) option"

text \<open>
  The session together with the trace of the events performed so far, the next
  unused object number, and the channel watchers that are blocked in the \<open>select\<close> of
  \<open>listenChannel\<close>: each with the identity it was started for and the two channels
  its \<open>select\<close> waits on, the close-notification channel and the done channel, as the
  registries gave them when the \<open>select\<close> was entered.
\<close>

record state = AmqpDrive +
  trace :: "event list"
  fresh :: ptr
  watchers :: "(string \<times> ptr option \<times> ptr option) list"

definition emit :: "event list \<Rightarrow> state \<Rightarrow> state" where
  "emit evs s = s\<lparr>trace := trace s @ evs\<rparr>"

text \<open>
  Modelled from the spec: the synchronized registries of package \<open>utils\<close>
  (\<open>SyncChannel\<close>, \<open>SyncChannelDone\<close>, \<open>SyncChannelReady\<close>, \<open>SyncNotifyChanClose\<close>),
  which are not among the sources. The spec calls them concurrency-safe key to value
  stores keyed by subscription identity, so \<open>Get\<close> and \<open>Set\<close> are a lookup and an update
  of a map; \<open>Get\<close> of an identity that was never set gives Go's zero value (nil, or
  \<open>false\<close> for the readiness flag), and a method called on a registry that was never
  allocated dereferences a nil pointer.
\<close>

definition registry_Get :: "(string \<rightharpoonup> 'v) option \<Rightarrow> string \<Rightarrow> 'v option exec" where
  "registry_Get r ID = (case r of None \<Rightarrow> Panic | Some m \<Rightarrow> Ok (m ID))"

definition registry_Set :: "(string \<rightharpoonup> 'v) option \<Rightarrow> string \<Rightarrow> 'v \<Rightarrow> (string \<rightharpoonup> 'v) option exec" where
  "registry_Set r ID v = (case r of None \<Rightarrow> Panic | Some m \<Rightarrow> Ok (Some (m(ID \<mapsto> v))))"

definition ready_Get :: "(string \<rightharpoonup> bool) option \<Rightarrow> string \<Rightarrow> bool exec" where
  "ready_Get r ID =
    (case r of None \<Rightarrow> Panic
     | Some m \<Rightarrow> Ok (case m ID of None \<Rightarrow> False | Some b \<Rightarrow> b))"

section \<open>The connection supervisor\<close>

text \<open>
  \<open>NewAmqpDrive\<close>. The result of \<open>amqp.Dial\<close> is an input: \<open>Some err\<close> when the broker
  cannot be reached. The session is returned in both cases (a named result), with
  the error.
\<close>

definition NewAmqpDrive ::
  "string \<Rightarrow> ptr option \<Rightarrow> ptr option \<Rightarrow> error option \<Rightarrow> event list \<Rightarrow> ptr \<Rightarrow> state \<times> error option" where
  "NewAmqpDrive url' schema' logging' dialled tr p =
    (let session =
           \<lparr>url = url', schema = schema', logging = logging', conn = None,
            notifyConnClose = None, channel = None, channelDone = None,
            channelReady = None, notifyChanClose = None,
            trace = tr @ [Dial url'], fresh = p, watchers = []\<rparr>
     in case dialled of
          Some err \<Rightarrow> (session, Some err)
        | None \<Rightarrow>
            (session
               \<lparr>conn := Some p,
                notifyConnClose := Some (p + 1),
                channel := Some Map.empty,
                channelDone := Some Map.empty,
                channelReady := Some Map.empty,
                notifyChanClose := Some Map.empty,
                trace := tr @ [Dial url', ConnNotifyClose p (p + 1), Go ListenConn],
                fresh := p + 2\<rparr>,
             None))"

text \<open>\<open>time.Second\<close>, in nanoseconds.\<close>

definition Second :: int where
  "Second = 1000000000"

text \<open>
  The loop of \<open>reconnected\<close>. The results of the successive calls of \<open>amqp.Dial\<close> are
  an input; the loop has not returned (\<open>None\<close>) when they are used up. \<open>count\<close> is a Go
  \<open>int\<close>, 64 bits wide here: \<open>count++\<close> wraps, and the log line prints the signed value.
\<close>

fun reconnect_loop :: "error option list \<Rightarrow> 64 word \<Rightarrow> state \<Rightarrow> state option" where
  "reconnect_loop [] count s = None"
| "reconnect_loop (dialled # rest) count s =
    (let count = count + 1;
         s = emit [Sleep (Second * 5), LogInfo [S ''Trying to reconnect:'', N (sint count)],
                   Dial (url s)] s
     in case dialled of
          Some err \<Rightarrow> reconnect_loop rest count (emit [LogError [E err]] s)
        | None \<Rightarrow>
            Some (s\<lparr>conn := Some (fresh s),
                    notifyConnClose := Some (fresh s + 1),
                    trace := trace s @ [ConnNotifyClose (fresh s) (fresh s + 1), Go ListenConn,
                                        LogInfo [S ''Attempt to reconnect successfully'']],
                    fresh := fresh s + 2\<rparr>))"

definition reconnected :: "error option list \<Rightarrow> state \<Rightarrow> state option" where
  "reconnected dials s = reconnect_loop dials 0 s"

text \<open>
  \<open>listenConn\<close>, from the moment its \<open>select\<close> receives from \<open>c.notifyConnClose\<close>; a
  receive from a nil channel never happens.
\<close>

definition listenConn :: "error option list \<Rightarrow> state \<Rightarrow> state exec option" where
  "listenConn dials s =
    (case notifyConnClose s of
       None \<Rightarrow> Some Blocked
     | Some n \<Rightarrow>
         map_option Ok
           (reconnected dials (emit [LogError [S ''AMQP connection has been disconnected'']] s)))"

section \<open>The channel supervisor\<close>

text \<open>
  The entry of \<open>listenChannel\<close> into its \<open>select\<close>: the two channel expressions
  \<open>c.notifyChanClose.Get(ID)\<close> and \<open>c.channelDone.Get(ID)\<close> are evaluated, and the
  goroutine waits on them.
\<close>

definition listenChannel_select :: "string \<Rightarrow> state \<Rightarrow> state exec" where
  "listenChannel_select ID s =
    and_then (registry_Get (notifyChanClose s) ID) (\<lambda>notify.
    and_then (registry_Get (channelDone s) ID) (\<lambda>done.
      Ok (s\<lparr>watchers := watchers s @ [(ID, notify, done)]\<rparr>)))"

text \<open>
  \<open>SetChannel\<close>. The result of \<open>c.conn.Channel()\<close> is an input: \<open>Some err\<close> when the
  connection refuses a new channel. The watcher started by \<open>go c.listenChannel(ID)\<close> is
  taken to enter its \<open>select\<close> at once, before the registries change again, so that it
  waits on the two channels just stored.
\<close>

definition SetChannel :: "string \<Rightarrow> error option \<Rightarrow> state \<Rightarrow> (error option \<times> state) exec" where
  "SetChannel ID opened s =
    (case conn s of
       None \<Rightarrow> Panic
     | Some cn \<Rightarrow>
         (case opened of
            Some err \<Rightarrow> Ok (Some err, emit [ChannelRefused cn err] s)
          | None \<Rightarrow>
              (let channel' = fresh s; done = fresh s + 1; notify = fresh s + 2 in
               and_then (registry_Set (channel s) ID channel') (\<lambda>chs.
               and_then (registry_Set (channelDone s) ID done) (\<lambda>dones.
               and_then (registry_Set (notifyChanClose s) ID notify) (\<lambda>notifies.
               and_then
                 (listenChannel_select ID
                    (s\<lparr>channel := chs, channelDone := dones, notifyChanClose := notifies,
                      trace := trace s @ [ChannelOpened cn channel',
                                          ChanNotifyClose channel' notify,
                                          Go (ListenChannel ID)],
                      fresh := fresh s + 3\<rparr>))
                 (\<lambda>s. Ok (None, s))))))))"

text \<open>
  \<open>SetConsume\<close> up to the start of its goroutine, which is \<open>consume_loop\<close> above. The
  result of \<open>Consume\<close> is an input: \<open>Some err\<close> when the stream is not established.
  \<open>Consume\<close> is called with \<open>autoAck\<close>, \<open>exclusive\<close>, \<open>noLocal\<close>, \<open>noWait\<close> all false and
  nil arguments; on a nil channel it dereferences the nil pointer.
\<close>

definition SetConsume :: "SubscriberOption \<Rightarrow> error option \<Rightarrow> state \<Rightarrow> (error option \<times> state) exec" where
  "SetConsume option consumed s =
    and_then (registry_Get (channel s) (Identity option)) (\<lambda>ch.
      case ch of
        None \<Rightarrow> Panic
      | Some h \<Rightarrow>
          (let s = emit [Consume h (Queue option) (Identity option) False False False False] s in
           case consumed of
             Some err \<Rightarrow>
               and_then (registry_Set (channelReady s) (Identity option) False) (\<lambda>ready.
                 Ok (Some err, s\<lparr>channelReady := ready\<rparr>))
           | None \<Rightarrow>
               and_then (registry_Set (channelReady s) (Identity option) True) (\<lambda>ready.
                 Ok (None,
                     s\<lparr>channelReady := ready,
                       trace := trace s @ [Go (ConsumeLoop option (fresh s))],
                       fresh := fresh s + 1\<rparr>))))"

text \<open>
  \<open>SetConsume\<close> in two parts, for the runs in which another goroutine acts after
  \<open>Consume\<close> has returned and before the readiness flag is written: the call of
  \<open>Consume\<close>, and the rest of the function with the result of the call.
\<close>

definition SetConsume_call :: "SubscriberOption \<Rightarrow> state \<Rightarrow> state exec" where
  "SetConsume_call option s =
    and_then (registry_Get (channel s) (Identity option)) (\<lambda>ch.
      case ch of
        None \<Rightarrow> Panic
      | Some h \<Rightarrow>
          Ok (emit [Consume h (Queue option) (Identity option) False False False False] s))"

definition SetConsume_finish ::
  "SubscriberOption \<Rightarrow> error option \<Rightarrow> state \<Rightarrow> (error option \<times> state) exec" where
  "SetConsume_finish option consumed s =
    (case consumed of
       Some err \<Rightarrow>
         and_then (registry_Set (channelReady s) (Identity option) False) (\<lambda>ready.
           Ok (Some err, s\<lparr>channelReady := ready\<rparr>))
     | None \<Rightarrow>
         and_then (registry_Set (channelReady s) (Identity option) True) (\<lambda>ready.
           Ok (None,
               s\<lparr>channelReady := ready,
                 trace := trace s @ [Go (ConsumeLoop option (fresh s))],
                 fresh := fresh s + 1\<rparr>)))"

text \<open>
  What the outside answers during one turn of the loop of \<open>refreshChannel\<close>: the results
  of \<open>c.conn.Channel()\<close>, of \<open>c.schema.Get(ID)\<close> and of \<open>Consume\<close>.
\<close>

record attempt =
  opened :: "error option"
  looked_up :: "error + SubscriberOption"
  consumed :: "error option"

text \<open>
  \<open>refreshChannel\<close>: one turn of the loop for each attempt; the loop has not returned
  (\<open>None\<close>) when the attempts are used up.
\<close>

fun refreshChannel :: "string \<Rightarrow> attempt list \<Rightarrow> state \<Rightarrow> state exec option" where
  "refreshChannel ID [] s = None"
| "refreshChannel ID (a # rest) s =
    (case SetChannel ID (opened a) s of
       Panic \<Rightarrow> Some Panic
     | Blocked \<Rightarrow> Some Blocked
     | Ok (Some err, s) \<Rightarrow> refreshChannel ID rest s
     | Ok (None, s) \<Rightarrow>
         (let s = emit [SchemaGet ID] s in
          case looked_up a of
            Inl err \<Rightarrow> refreshChannel ID rest s
          | Inr option \<Rightarrow>
              (case SetConsume option (consumed a) s of
                 Panic \<Rightarrow> Some Panic
               | Blocked \<Rightarrow> Some Blocked
               | Ok (Some err, s) \<Rightarrow>
                   (case ready_Get (channelReady s) ID of
                      Panic \<Rightarrow> Some Panic
                    | Blocked \<Rightarrow> Some Blocked
                    | Ok True \<Rightarrow> refreshChannel ID rest s
                    | Ok False \<Rightarrow> Some (Ok s))
               | Ok (None, s) \<Rightarrow>
                   Some (Ok (emit [LogInfo [S ''Channel refresh successfully'']] s)))))"

text \<open>
  A turn of \<open>refreshChannel\<close> from the return of \<open>Consume\<close> on: the rest of
  \<open>SetConsume\<close>, then the readiness check and the end of the turn.
\<close>

definition refreshChannel_resume ::
  "string \<Rightarrow> SubscriberOption \<Rightarrow> error option \<Rightarrow> attempt list \<Rightarrow> state \<Rightarrow> state exec option" where
  "refreshChannel_resume ID option consumed' rest s =
    (case SetConsume_finish option consumed' s of
       Panic \<Rightarrow> Some Panic
     | Blocked \<Rightarrow> Some Blocked
     | Ok (Some err, s) \<Rightarrow>
         (case ready_Get (channelReady s) ID of
            Panic \<Rightarrow> Some Panic
          | Blocked \<Rightarrow> Some Blocked
          | Ok True \<Rightarrow> refreshChannel ID rest s
          | Ok False \<Rightarrow> Some (Ok s))
     | Ok (None, s) \<Rightarrow>
         Some (Ok (emit [LogInfo [S ''Channel refresh successfully'']] s)))"

text \<open>The case of the \<open>select\<close> in \<open>listenChannel\<close> that fires.\<close>

datatype select_case = RecvNotifyChanClose | RecvChannelDone

text \<open>A watcher leaves its \<open>select\<close>: it is no longer waiting.\<close>

definition leave_select :: "string \<times> ptr option \<times> ptr option \<Rightarrow> state \<Rightarrow> state" where
  "leave_select w s = s\<lparr>watchers := remove1 w (watchers s)\<rparr>"

text \<open>
  \<open>listenChannel\<close>, from the moment the \<open>select\<close> of the waiting watcher \<open>w\<close> fires: the
  body of the case that fired.
\<close>

definition listenChannel ::
  "string \<times> ptr option \<times> ptr option \<Rightarrow> select_case \<Rightarrow> attempt list \<Rightarrow> state \<Rightarrow>
   state exec option" where
  "listenChannel w fired attempts s =
    (let ID = fst w; s = leave_select w s in
     case fired of
       RecvNotifyChanClose \<Rightarrow>
         (let s = emit [LogError [S ''Channel connection is disconnected:'', S ID]] s in
          case ready_Get (channelReady s) ID of
            Panic \<Rightarrow> Some Panic
          | Blocked \<Rightarrow> Some Blocked
          | Ok True \<Rightarrow> refreshChannel ID attempts s
          | Ok False \<Rightarrow> Some (Ok s))
     | RecvChannelDone \<Rightarrow> Some (Ok s))"

text \<open>
  \<open>CloseChannel\<close>. The result of \<open>Close()\<close> is an input. The done channel is unbuffered,
  so the send completes only by handing the value to a goroutine that receives from
  it: a watcher waiting on that channel, whose \<open>select\<close> thereby fires its done case.
  With no such watcher the send blocks for ever. \<open>Close\<close> on a nil channel dereferences
  the nil pointer.
\<close>

definition CloseChannel :: "string \<Rightarrow> error option \<Rightarrow> state \<Rightarrow> (error option \<times> state) exec" where
  "CloseChannel ID closed s =
    and_then (registry_Get (channelDone s) ID) (\<lambda>done.
      case done of
        None \<Rightarrow> Blocked
      | Some d \<Rightarrow>
          (case filter (\<lambda>w. snd (snd w) = Some d) (watchers s) of
             [] \<Rightarrow> Blocked
           | w # ws \<Rightarrow>
               (case listenChannel w RecvChannelDone [] (emit [ChanSend d 1] s) of
                  Some (Ok s) \<Rightarrow>
                    and_then (registry_Get (channel s) ID) (\<lambda>ch.
                      case ch of
                        None \<Rightarrow> Panic
                      | Some h \<Rightarrow> Ok (closed, emit [ChannelClose h] s))
                | Some Panic \<Rightarrow> Panic
                | _ \<Rightarrow> Blocked)))"

text \<open>
  The broker library closes the close-notification channels registered on a channel
  handle when the handle is closed or dies. \<open>woken h s\<close> are the watchers this wakes,
  those waiting on a notification channel of \<open>h\<close>; in \<open>notify_closed\<close> each of them runs
  the notification case of its \<open>select\<close>, one after the other.
\<close>

definition woken :: "ptr \<Rightarrow> state \<Rightarrow> (string \<times> ptr option \<times> ptr option) list" where
  "woken h s =
    filter (\<lambda>w. case fst (snd w) of None \<Rightarrow> False | Some n \<Rightarrow> ChanNotifyClose h n \<in> set (trace s))
      (watchers s)"

fun fire_all ::
  "(string \<times> ptr option \<times> ptr option) list \<Rightarrow> attempt list \<Rightarrow> state \<Rightarrow> state exec option" where
  "fire_all [] attempts s = Some (Ok s)"
| "fire_all (w # ws) attempts s =
    (case listenChannel w RecvNotifyChanClose attempts s of
       Some (Ok s) \<Rightarrow> fire_all ws attempts s
     | r \<Rightarrow> r)"

definition notify_closed :: "ptr \<Rightarrow> attempt list \<Rightarrow> state \<Rightarrow> state exec option" where
  "notify_closed h attempts s = fire_all (woken h s) attempts s"

text \<open>
  What every state reached by the operations satisfies: object numbers in use are
  below the next unused one; the waiting watchers wait on distinct done channels;
  and a watcher waiting on a notification channel of the handle an identity has in
  the registry waits on the done channel the identity has in the registry.
\<close>

definition watchers_below :: "state \<Rightarrow> bool" where
  "watchers_below s \<longleftrightarrow>
    (\<forall>ID n d. (ID, n, d) \<in> set (watchers s) \<longrightarrow>
       (\<exists>x y. n = Some x \<and> d = Some y \<and> x < fresh s \<and> y < fresh s))"

definition notifies_below :: "state \<Rightarrow> bool" where
  "notifies_below s \<longleftrightarrow>
    (\<forall>h n. ChanNotifyClose h n \<in> set (trace s) \<longrightarrow> h < fresh s \<and> n < fresh s)"

definition registries_below :: "state \<Rightarrow> bool" where
  "registries_below s \<longleftrightarrow>
    (\<forall>chs ID h. channel s = Some chs \<and> chs ID = Some h \<longrightarrow> h < fresh s) \<and>
    (\<forall>dones ID d. channelDone s = Some dones \<and> dones ID = Some d \<longrightarrow> d < fresh s)"

definition dones_distinct :: "state \<Rightarrow> bool" where
  "dones_distinct s \<longleftrightarrow> distinct (map (\<lambda>w. snd (snd w)) (watchers s))"

definition notify_paired :: "state \<Rightarrow> bool" where
  "notify_paired s \<longleftrightarrow>
    (\<forall>chs dones ID h d ID' n d'.
       channel s = Some chs \<and> chs ID = Some h \<and> channelDone s = Some dones \<and>
       dones ID = Some d \<and> (ID', Some n, d') \<in> set (watchers s) \<and>
       ChanNotifyClose h n \<in> set (trace s) \<longrightarrow> d' = Some d)"

definition paired :: "state \<Rightarrow> bool" where
  "paired s \<longleftrightarrow>
    watchers_below s \<and> notifies_below s \<and> registries_below s \<and> dones_distinct s \<and>
    notify_paired s"

text \<open>
  The broker channels that are live after a trace: opened on the connection and
  neither closed by \<open>Close\<close> nor reported dead by the broker, oldest first.
\<close>

fun live_handles :: "event list \<Rightarrow> ptr list \<Rightarrow> ptr list" where
  "live_handles [] hs = hs"
| "live_handles (ChannelOpened cn h # evs) hs = live_handles evs (hs @ [h])"
| "live_handles (ChannelClose h # evs) hs = live_handles evs (removeAll h hs)"
| "live_handles (ChannelDied h # evs) hs = live_handles evs (removeAll h hs)"
| "live_handles (_ # evs) hs = live_handles evs hs"

text \<open>The sleeps of a trace, in order.\<close>

fun sleeps :: "event list \<Rightarrow> int list" where
  "sleeps [] = []"
| "sleeps (Sleep d # evs) = d # sleeps evs"
| "sleeps (_ # evs) = sleeps evs"

text \<open>The goroutines a trace starts, in order.\<close>

fun spawned :: "event list \<Rightarrow> goroutine list" where
  "spawned [] = []"
| "spawned (Go t # evs) = t # spawned evs"
| "spawned (_ # evs) = spawned evs"

section \<open>Example runs\<close>

text \<open>
  Concrete inputs, used below to run the model: a JSON library restricted to four
  texts, the subscription of the spec's end-to-end example, and the states a session
  goes through when it is created, subscribed and then loses its channel.
\<close>

definition example_lib :: lib where
  "example_lib =
     \<lparr>Valid = (\<lambda>b. b = ''{\"id\":1}'' \<or> b = ''{\"ok\":true}'' \<or> b = ''[]''),
      Unmarshal = (\<lambda>b.
        if b = ''{\"id\":1}'' then AMap [(''id'', ANumber ''1'')]
        else if b = ''{\"ok\":true}'' then AMap [(''ok'', ABool True)]
        else if b = ''[]'' then ASlice []
        else ANil),
      Validate = (\<lambda>sch b.
        if b = ''{\"id\":1}'' \<or> b = ''{\"ok\":true}'' then Inr True
        else if b = ''[]'' then Inr False
        else Inl (Err ''invalid character''))\<rparr>"

definition example_option :: SubscriberOption where
  "example_option =
     \<lparr>Identity = ''orders-1'', Queue = ''orders'', Url = ''https://hook.example/x'',
      Secret = ''s''\<rparr>"

definition outside_ok :: outside where
  "outside_ok = \<lparr>Fetch = (\<lambda>fo. (''{\"ok\":true}'', [])), Unix = 1600000000\<rparr>"

definition outside_array :: outside where
  "outside_array = \<lparr>Fetch = (\<lambda>fo. (''[]'', [])), Unix = 1600000000\<rparr>"

definition outside_text :: outside where
  "outside_text = \<lparr>Fetch = (\<lambda>fo. (''pong'', [])), Unix = 1600000000\<rparr>"

definition outside_failed :: outside where
  "outside_failed =
     \<lparr>Fetch = (\<lambda>fo. ([], [Err ''timeout'', Err ''502 Bad Gateway''])), Unix = 1600000000\<rparr>"

definition malformed_delivery :: Delivery where
  "malformed_delivery = \<lparr>Body = ''oops'', DeliveryTag = 1\<rparr>"

definition wellformed_delivery :: Delivery where
  "wellformed_delivery = \<lparr>Body = ''{\"id\":1}'', DeliveryTag = 2\<rparr>"

definition example_fetch :: FetchOption where
  "example_fetch =
     \<lparr>Fetch_Url = ''https://hook.example/x'', Fetch_Secret = ''s'', Fetch_Body = ''{\"id\":1}''\<rparr>"

definition broker_down :: error where
  "broker_down = Err ''dial tcp: connection refused''"

definition not_open :: error where
  "not_open = Err ''channel/connection is not open''"

definition consume_refused :: error where
  "consume_refused = Err ''NOT_FOUND - no queue''"

definition lookup_failed :: error where
  "lookup_failed = Err ''no such file or directory''"

definition close_failed :: error where
  "close_failed = Err ''channel/connection is not open''"

text \<open>The state an operation returns with, or the given state when it does not return.\<close>

definition after :: "('a \<times> state) exec \<Rightarrow> state \<Rightarrow> state" where
  "after r s = (case r of Ok (x, s') \<Rightarrow> s' | _ \<Rightarrow> s)"

definition finished :: "state exec option \<Rightarrow> state \<Rightarrow> state" where
  "finished r s = (case r of Some (Ok s') \<Rightarrow> s' | _ \<Rightarrow> s)"

definition started :: state where
  "started = fst (NewAmqpDrive ''amqp://broker'' (Some 1) (Some 2) None [] 10)"

definition opened_channel :: state where
  "opened_channel = after (SetChannel ''orders-1'' None started) started"

definition subscribed :: state where
  "subscribed = after (SetConsume example_option None opened_channel) opened_channel"

definition channel_lost :: state where
  "channel_lost = emit [ChannelDied 12] subscribed"

definition reopened :: state where
  "reopened = after (SetChannel ''orders-1'' None channel_lost) channel_lost"

definition refresh_gave_up :: state where
  "refresh_gave_up =
     after (SetConsume example_option (Some consume_refused) (emit [SchemaGet ''orders-1''] reopened))
       reopened"

definition refused_attempt :: attempt where
  "refused_attempt = \<lparr>opened = Some not_open, looked_up = Inr example_option, consumed = None\<rparr>"

definition lookup_failed_attempt :: attempt where
  "lookup_failed_attempt = \<lparr>opened = None, looked_up = Inl lookup_failed, consumed = None\<rparr>"

definition consume_failed_attempt :: attempt where
  "consume_failed_attempt =
     \<lparr>opened = None, looked_up = Inr example_option, consumed = Some consume_refused\<rparr>"

definition good_attempt :: attempt where
  "good_attempt = \<lparr>opened = None, looked_up = Inr example_option, consumed = None\<rparr>"

definition refreshed :: state where
  "refreshed =
     finished (refreshChannel ''orders-1'' [lookup_failed_attempt, good_attempt] channel_lost)
       channel_lost"

lemmas pipeline_examples = example_lib_def example_option_def outside_ok_def outside_array_def
  outside_text_def outside_failed_def malformed_delivery_def wellformed_delivery_def
  example_fetch_def

text \<open>
  The run in which the watcher of a refresh turn acts before the turn is over. The
  watcher of \<open>orders-1\<close> has noticed the loss of channel 12 and refreshes; the turn
  reopens the channel and calls \<open>Consume\<close>; the broker refuses and closes the new
  channel 16, which wakes the watcher that \<open>SetChannel\<close> started in this turn while the
  readiness flag still reads true; that watcher refreshes with success; then the turn
  goes on with the refused \<open>Consume\<close>.
\<close>

definition noticed :: state where
  "noticed =
     emit [LogError [S ''Channel connection is disconnected:'', S ''orders-1'']]
       (leave_select (''orders-1'', Some 14, Some 13) channel_lost)"

definition renewed :: state where
  "renewed = after (SetChannel ''orders-1'' None noticed) noticed"

definition consume_asked :: state where
  "consume_asked =
     emit [Consume 16 ''orders'' ''orders-1'' False False False False]
       (emit [SchemaGet ''orders-1''] renewed)"

definition refused_channel_died :: state where
  "refused_channel_died = emit [ChannelDied 16] consume_asked"

definition raced :: state where
  "raced = finished (notify_closed 16 [good_attempt] refused_channel_died) refused_channel_died"

definition reactivated :: state where
  "reactivated =
     finished (refreshChannel_resume ''orders-1'' example_option (Some consume_refused) [] raced)
       raced"

text \<open>The teardown of the subscription, and the recovery of a lost channel.\<close>

definition torn_down :: state where
  "torn_down = after (CloseChannel ''orders-1'' (Some close_failed) subscribed) subscribed"

definition recovered :: state where
  "recovered = finished (notify_closed 12 [good_attempt] channel_lost) channel_lost"

lemmas operations = NewAmqpDrive_def SetChannel_def SetConsume_def CloseChannel_def
  listenChannel_def listenChannel_select_def leave_select_def SetConsume_call_def
  SetConsume_finish_def refreshChannel_resume_def woken_def notify_closed_def
  registry_Get_def registry_Set_def ready_Get_def emit_def

section \<open>Facts about traces\<close>

lemma spawned_append: "spawned (xs @ ys) = spawned xs @ spawned ys"
  by (induction xs rule: spawned.induct) simp_all

lemma sleeps_append: "sleeps (xs @ ys) = sleeps xs @ sleeps ys"
  by (induction xs rule: sleeps.induct) simp_all

lemma live_handles_append: "live_handles (xs @ ys) hs = live_handles ys (live_handles xs hs)"
  by (induction xs hs rule: live_handles.induct) simp_all

section \<open>The example states, written out\<close>

lemma started_eq:
  "started =
     \<lparr>url = ''amqp://broker'', schema = Some 1, logging = Some 2, conn = Some 10,
      notifyConnClose = Some 11, channel = Some Map.empty, channelDone = Some Map.empty,
      channelReady = Some Map.empty, notifyChanClose = Some Map.empty,
      trace = [Dial ''amqp://broker'', ConnNotifyClose 10 11, Go ListenConn], fresh = 12,
      watchers = []\<rparr>"
  by (simp add: started_def NewAmqpDrive_def)

lemma opened_channel_eq:
  "opened_channel =
     \<lparr>url = ''amqp://broker'', schema = Some 1, logging = Some 2, conn = Some 10,
      notifyConnClose = Some 11, channel = Some [''orders-1'' \<mapsto> 12],
      channelDone = Some [''orders-1'' \<mapsto> 13],
      channelReady = Some Map.empty, notifyChanClose = Some [''orders-1'' \<mapsto> 14],
      trace = [Dial ''amqp://broker'', ConnNotifyClose 10 11, Go ListenConn,
               ChannelOpened 10 12, ChanNotifyClose 12 14, Go (ListenChannel ''orders-1'')],
      fresh = 15, watchers = [(''orders-1'', Some 14, Some 13)]\<rparr>"
  by (simp add: opened_channel_def started_eq after_def operations)

lemma subscribed_eq:
  "subscribed =
     \<lparr>url = ''amqp://broker'', schema = Some 1, logging = Some 2, conn = Some 10,
      notifyConnClose = Some 11, channel = Some [''orders-1'' \<mapsto> 12],
      channelDone = Some [''orders-1'' \<mapsto> 13],
      channelReady = Some [''orders-1'' \<mapsto> True],
      notifyChanClose = Some [''orders-1'' \<mapsto> 14],
      trace = [Dial ''amqp://broker'', ConnNotifyClose 10 11, Go ListenConn,
               ChannelOpened 10 12, ChanNotifyClose 12 14, Go (ListenChannel ''orders-1''),
               Consume 12 ''orders'' ''orders-1'' False False False False,
               Go (ConsumeLoop example_option 15)],
      fresh = 16, watchers = [(''orders-1'', Some 14, Some 13)]\<rparr>"
  by (simp add: subscribed_def opened_channel_eq after_def operations example_option_def)

lemma channel_lost_eq:
  "channel_lost =
     \<lparr>url = ''amqp://broker'', schema = Some 1, logging = Some 2, conn = Some 10,
      notifyConnClose = Some 11, channel = Some [''orders-1'' \<mapsto> 12],
      channelDone = Some [''orders-1'' \<mapsto> 13],
      channelReady = Some [''orders-1'' \<mapsto> True],
      notifyChanClose = Some [''orders-1'' \<mapsto> 14],
      trace = [Dial ''amqp://broker'', ConnNotifyClose 10 11, Go ListenConn,
               ChannelOpened 10 12, ChanNotifyClose 12 14, Go (ListenChannel ''orders-1''),
               Consume 12 ''orders'' ''orders-1'' False False False False,
               Go (ConsumeLoop example_option 15), ChannelDied 12],
      fresh = 16, watchers = [(''orders-1'', Some 14, Some 13)]\<rparr>"
  by (simp add: channel_lost_def subscribed_eq emit_def)

lemma reopened_eq:
  "reopened =
     channel_lost
       \<lparr>channel := Some [''orders-1'' \<mapsto> 16], channelDone := Some [''orders-1'' \<mapsto> 17],
        notifyChanClose := Some [''orders-1'' \<mapsto> 18],
        trace := trace channel_lost @
          [ChannelOpened 10 16, ChanNotifyClose 16 18, Go (ListenChannel ''orders-1'')],
        fresh := 19,
        watchers := [(''orders-1'', Some 14, Some 13), (''orders-1'', Some 18, Some 17)]\<rparr>"
  by (simp add: reopened_def channel_lost_eq after_def operations)

lemma refresh_gave_up_eq:
  "refresh_gave_up =
     reopened
       \<lparr>channelReady := Some [''orders-1'' \<mapsto> False],
        trace := trace reopened @
          [SchemaGet ''orders-1'', Consume 16 ''orders'' ''orders-1'' False False False False]\<rparr>"
  by (simp add: refresh_gave_up_def reopened_eq channel_lost_eq after_def operations
      example_option_def)

lemma refreshed_eq:
  "refreshed =
     reopened
       \<lparr>channel := Some [''orders-1'' \<mapsto> 19], channelDone := Some [''orders-1'' \<mapsto> 20],
        notifyChanClose := Some [''orders-1'' \<mapsto> 21],
        trace := trace reopened @
          [SchemaGet ''orders-1'',
           ChannelOpened 10 19, ChanNotifyClose 19 21, Go (ListenChannel ''orders-1''),
           SchemaGet ''orders-1'',
           Consume 19 ''orders'' ''orders-1'' False False False False,
           Go (ConsumeLoop example_option 22),
           LogInfo [S ''Channel refresh successfully'']],
        fresh := 23,
        watchers := [(''orders-1'', Some 14, Some 13), (''orders-1'', Some 18, Some 17),
                     (''orders-1'', Some 21, Some 20)]\<rparr>"
  by (simp add: refreshed_def finished_def reopened_eq channel_lost_eq operations
      lookup_failed_attempt_def good_attempt_def example_option_def)

lemma noticed_eq:
  "noticed =
     channel_lost
       \<lparr>trace := trace channel_lost @
          [LogError [S ''Channel connection is disconnected:'', S ''orders-1'']],
        watchers := []\<rparr>"
  by (simp add: noticed_def channel_lost_eq operations)

lemma renewed_eq:
  "renewed =
     noticed
       \<lparr>channel := Some [''orders-1'' \<mapsto> 16], channelDone := Some [''orders-1'' \<mapsto> 17],
        notifyChanClose := Some [''orders-1'' \<mapsto> 18],
        trace := trace noticed @
          [ChannelOpened 10 16, ChanNotifyClose 16 18, Go (ListenChannel ''orders-1'')],
        fresh := 19,
        watchers := [(''orders-1'', Some 18, Some 17)]\<rparr>"
  by (simp add: renewed_def noticed_eq channel_lost_eq after_def operations)

lemma refused_channel_died_eq:
  "refused_channel_died =
     renewed
       \<lparr>trace := trace renewed @
          [SchemaGet ''orders-1'', Consume 16 ''orders'' ''orders-1'' False False False False,
           ChannelDied 16]\<rparr>"
  by (simp add: refused_channel_died_def consume_asked_def emit_def)

lemma raced_eq:
  "raced =
     refused_channel_died
       \<lparr>channel := Some [''orders-1'' \<mapsto> 19], channelDone := Some [''orders-1'' \<mapsto> 20],
        notifyChanClose := Some [''orders-1'' \<mapsto> 21],
        trace := trace refused_channel_died @
          [LogError [S ''Channel connection is disconnected:'', S ''orders-1''],
           ChannelOpened 10 19, ChanNotifyClose 19 21, Go (ListenChannel ''orders-1''),
           SchemaGet ''orders-1'',
           Consume 19 ''orders'' ''orders-1'' False False False False,
           Go (ConsumeLoop example_option 22),
           LogInfo [S ''Channel refresh successfully'']],
        fresh := 23,
        watchers := [(''orders-1'', Some 21, Some 20)]\<rparr>"
  by (simp add: raced_def finished_def refused_channel_died_eq renewed_eq noticed_eq
      channel_lost_eq operations good_attempt_def example_option_def Let_def)

lemma reactivated_eq:
  "reactivated = raced\<lparr>channelReady := Some [''orders-1'' \<mapsto> False]\<rparr>"
  by (simp add: reactivated_def finished_def raced_eq refused_channel_died_eq renewed_eq
      noticed_eq channel_lost_eq operations example_option_def)

lemma torn_down_eq:
  "torn_down =
     subscribed
       \<lparr>trace := trace subscribed @ [ChanSend 13 1, ChannelClose 12], watchers := []\<rparr>"
  by (simp add: torn_down_def subscribed_eq after_def operations)

lemma recovered_eq:
  "recovered =
     channel_lost
       \<lparr>channel := Some [''orders-1'' \<mapsto> 16], channelDone := Some [''orders-1'' \<mapsto> 17],
        notifyChanClose := Some [''orders-1'' \<mapsto> 18],
        trace := trace channel_lost @
          [LogError [S ''Channel connection is disconnected:'', S ''orders-1''],
           ChannelOpened 10 16, ChanNotifyClose 16 18, Go (ListenChannel ''orders-1''),
           SchemaGet ''orders-1'',
           Consume 16 ''orders'' ''orders-1'' False False False False,
           Go (ConsumeLoop example_option 19),
           LogInfo [S ''Channel refresh successfully'']],
        fresh := 20,
        watchers := [(''orders-1'', Some 18, Some 17)]\<rparr>"
  by (simp add: recovered_def finished_def channel_lost_eq operations good_attempt_def
      example_option_def Let_def)

lemmas example_states = started_eq opened_channel_eq subscribed_eq channel_lost_eq reopened_eq
  refresh_gave_up_eq refreshed_eq noticed_eq renewed_eq refused_channel_died_eq raced_eq
  reactivated_eq torn_down_eq recovered_eq

lemmas example_attempts = refused_attempt_def lookup_failed_attempt_def
  consume_failed_attempt_def good_attempt_def example_option_def

section \<open>The per-message loop\<close>

text \<open>
  The loop handles a delivery with \<open>deliver\<close> once it has handled every delivery before
  it, and goes on to the next one unless \<open>deliver\<close> returned.
\<close>

lemma consume_loop_reaches:
  "\<forall>x \<in> set pre. Valid L (Body (fst x)) \<Longrightarrow>
   consume_loop L option (pre @ (d, w) # rest) =
     consume_loop L option pre @ fst (deliver L option w d) @
     (if snd (deliver L option w d) then consume_loop L option rest else [])"
proof (induction pre)
  case Nil
  show ?case by (cases "deliver L option w d") (auto split: bool.splits)
next
  case (Cons x pre)
  obtain d' w' where x: "x = (d', w')" by (cases x)
  have "Valid L (Body d')" using Cons.prems x by simp
  then have "snd (deliver L option w' d')"
    by (simp add: deliver_def Let_def split: prod.splits)
  then show ?case
    using Cons x by (cases "deliver L option w' d'") (auto split: bool.splits)
qed

text \<open>
  C1, as the claim states it, fails: \<open>actions.Fetch\<close> is the first statement of the loop
  body, before \<open>jsoniter.Valid\<close> is consulted. Here the body \<open>oops\<close> is not valid JSON and
  the webhook is called with it all the same.
\<close>

theorem malformed_body_is_forwarded:
  "\<not> Valid example_lib (Body malformed_delivery) \<and>
   fetches (fst (deliver example_lib example_option outside_ok malformed_delivery)) =
     [\<lparr>Fetch_Url = ''https://hook.example/x'', Fetch_Secret = ''s'', Fetch_Body = ''oops''\<rparr>]"
  by (simp add: pipeline_examples deliver_def)

text \<open>
  C1, amended: for a delivery whose body is not valid JSON, the loop body calls the
  webhook collaborator with the target Url, the Secret and the body, then rejects the
  message with \<open>Nack(false, false)\<close> (requeue=false), and does nothing else: no audit
  record is pushed for the message.
\<close>

theorem deliver_malformed:
  "\<not> Valid L (Body d) \<Longrightarrow>
   fst (deliver L option w d) =
     [FetchCall \<lparr>Fetch_Url = Url option, Fetch_Secret = Secret option, Fetch_Body = Body d\<rparr>,
      Nack d False False] \<and>
   pushes (fst (deliver L option w d)) = []"
  by (simp add: deliver_def Let_def split: prod.splits)

theorem deliver_malformed_witness:
  "\<not> Valid example_lib (Body malformed_delivery) \<and>
   fst (deliver example_lib example_option outside_ok malformed_delivery) =
     [FetchCall \<lparr>Fetch_Url = ''https://hook.example/x'', Fetch_Secret = ''s'',
                 Fetch_Body = ''oops''\<rparr>,
      Nack malformed_delivery False False] \<and>
   pushes (fst (deliver example_lib example_option outside_ok malformed_delivery)) = []"
  using deliver_malformed [of example_lib malformed_delivery example_option outside_ok]
  by (simp add: pipeline_examples)

text \<open>
  C2: for a delivery with a valid JSON body for which the webhook collaborator returns
  a non-empty error list, the loop body rejects the message with \<open>Nack(false, false)\<close>
  and pushes one audit record, with \<open>HasError\<close> true, \<open>Status\<close> false and \<open>Response\<close> the
  map whose only entry \<open>errs\<close> lists the messages of the errors, in order.
\<close>

theorem deliver_forward_errors:
  assumes "Valid L (Body d)"
    and "Fetch w \<lparr>Fetch_Url = Url option, Fetch_Secret = Secret option, Fetch_Body = Body d\<rparr> =
           (body, errs)"
    and "errs \<noteq> []"
  shows "\<exists>m. fst (deliver L option w d) =
           [FetchCall \<lparr>Fetch_Url = Url option, Fetch_Secret = Secret option,
                       Fetch_Body = Body d\<rparr>,
            Nack d False False,
            Push \<lparr>Push_Identity = Identity option, HasError = True, Message = m\<rparr>] \<and>
         field m ''Status'' = Some (ABool False) \<and>
         field m ''Response'' = Some (AMap [(''errs'', AStrings (map Error errs))])"
  using assms by (simp add: deliver_def Let_def field_def)

theorem deliver_forward_errors_witness:
  "Valid example_lib (Body wellformed_delivery) \<and>
   Fetch outside_failed example_fetch = ([], [Err ''timeout'', Err ''502 Bad Gateway'']) \<and>
   (\<exists>m. fst (deliver example_lib example_option outside_failed wellformed_delivery) =
           [FetchCall example_fetch,
            Nack wellformed_delivery False False,
            Push \<lparr>Push_Identity = ''orders-1'', HasError = True, Message = m\<rparr>] \<and>
         field m ''Status'' = Some (ABool False) \<and>
         field m ''Response'' =
           Some (AMap [(''errs'', AStrings [''timeout'', ''502 Bad Gateway''])]))"
  using deliver_forward_errors [of example_lib wellformed_delivery outside_failed example_option
      "[]" "[Err ''timeout'', Err ''502 Bad Gateway'']"]
  by (simp add: pipeline_examples)

text \<open>
  C3: for a delivery with a valid JSON body for which the webhook collaborator returns
  an empty error list, the loop body acknowledges the message with \<open>Ack(false)\<close> and
  pushes one audit record, with \<open>HasError\<close> false and \<open>Status\<close> true. Its \<open>Response\<close> is
  the decoded response when validating the response against \<open>{"type":"object"}\<close>
  succeeds with a valid result, and the map with the single entry \<open>raw\<close>, the response
  text, when the validation returns an error or an invalid result.
\<close>

theorem deliver_forward_ok:
  assumes "Valid L (Body d)"
    and "Fetch w \<lparr>Fetch_Url = Url option, Fetch_Secret = Secret option, Fetch_Body = Body d\<rparr> =
           (body, [])"
  shows "\<exists>m. fst (deliver L option w d) =
           [FetchCall \<lparr>Fetch_Url = Url option, Fetch_Secret = Secret option,
                       Fetch_Body = Body d\<rparr>,
            Ack d False,
            Push \<lparr>Push_Identity = Identity option, HasError = False, Message = m\<rparr>] \<and>
         field m ''Status'' = Some (ABool True) \<and>
         (Validate L object_schema body = Inr True \<longrightarrow>
            field m ''Response'' = Some (Unmarshal L body)) \<and>
         (Validate L object_schema body \<noteq> Inr True \<longrightarrow>
            field m ''Response'' = Some (AMap [(''raw'', AString body)]))"
  using assms by (auto simp add: deliver_def Let_def field_def split: sum.splits)

theorem deliver_forward_ok_witness:
  "Valid example_lib (Body wellformed_delivery) \<and>
   (\<exists>m. fst (deliver example_lib example_option outside_ok wellformed_delivery) =
           [FetchCall example_fetch, Ack wellformed_delivery False,
            Push \<lparr>Push_Identity = ''orders-1'', HasError = False, Message = m\<rparr>] \<and>
         field m ''Status'' = Some (ABool True) \<and>
         field m ''Response'' = Some (AMap [(''ok'', ABool True)])) \<and>
   (\<exists>m. fst (deliver example_lib example_option outside_array wellformed_delivery) =
           [FetchCall example_fetch, Ack wellformed_delivery False,
            Push \<lparr>Push_Identity = ''orders-1'', HasError = False, Message = m\<rparr>] \<and>
         field m ''Status'' = Some (ABool True) \<and>
         field m ''Response'' = Some (AMap [(''raw'', AString ''[]'')])) \<and>
   (\<exists>m. fst (deliver example_lib example_option outside_text wellformed_delivery) =
           [FetchCall example_fetch, Ack wellformed_delivery False,
            Push \<lparr>Push_Identity = ''orders-1'', HasError = False, Message = m\<rparr>] \<and>
         field m ''Status'' = Some (ABool True) \<and>
         field m ''Response'' = Some (AMap [(''raw'', AString ''pong'')]))"
  using
    deliver_forward_ok [of example_lib wellformed_delivery outside_ok example_option
      "''{\"ok\":true}''"]
    deliver_forward_ok [of example_lib wellformed_delivery outside_array example_option "''[]''"]
    deliver_forward_ok [of example_lib wellformed_delivery outside_text example_option "''pong''"]
  by (simp add: pipeline_examples object_schema_def)

section \<open>Creating the session and reconnecting\<close>

text \<open>
  C10: \<open>NewAmqpDrive\<close> returns a non-nil error exactly when the dial fails, and the
  error is the dial's. In that case the session it returns holds the url, the schema
  and the logging handle and nothing else: the connection, its close notification and
  the four registries are nil, and no goroutine was started. With a nil error the four
  registries are allocated (empty), the close notification is registered on the new
  connection, and the connection watcher was started.
\<close>

theorem NewAmqpDrive_result:
  "(snd (NewAmqpDrive u sc lg dialled tr p) \<noteq> None \<longleftrightarrow> dialled \<noteq> None) \<and>
   snd (NewAmqpDrive u sc lg dialled tr p) = dialled \<and>
   (dialled \<noteq> None \<longrightarrow>
      fst (NewAmqpDrive u sc lg dialled tr p) =
        \<lparr>url = u, schema = sc, logging = lg, conn = None, notifyConnClose = None,
         channel = None, channelDone = None, channelReady = None, notifyChanClose = None,
         trace = tr @ [Dial u], fresh = p, watchers = []\<rparr> \<and>
      spawned (trace (fst (NewAmqpDrive u sc lg dialled tr p))) = spawned tr) \<and>
   (dialled = None \<longrightarrow>
      fst (NewAmqpDrive u sc lg dialled tr p) =
        \<lparr>url = u, schema = sc, logging = lg, conn = Some p, notifyConnClose = Some (p + 1),
         channel = Some Map.empty, channelDone = Some Map.empty,
         channelReady = Some Map.empty, notifyChanClose = Some Map.empty,
         trace = tr @ [Dial u, ConnNotifyClose p (p + 1), Go ListenConn], fresh = p + 2,
         watchers = []\<rparr> \<and>
      spawned (trace (fst (NewAmqpDrive u sc lg dialled tr p))) = spawned tr @ [ListenConn])"
  by (cases dialled) (simp_all add: NewAmqpDrive_def spawned_append)

theorem NewAmqpDrive_result_witness:
  "NewAmqpDrive ''amqp://broker'' (Some 1) (Some 2) (Some broker_down) [] 10 =
     (\<lparr>url = ''amqp://broker'', schema = Some 1, logging = Some 2, conn = None,
       notifyConnClose = None, channel = None, channelDone = None, channelReady = None,
       notifyChanClose = None, trace = [Dial ''amqp://broker''], fresh = 10,
       watchers = []\<rparr>,
      Some broker_down) \<and>
   NewAmqpDrive ''amqp://broker'' (Some 1) (Some 2) None [] 10 =
     (\<lparr>url = ''amqp://broker'', schema = Some 1, logging = Some 2, conn = Some 10,
       notifyConnClose = Some 11, channel = Some Map.empty, channelDone = Some Map.empty,
       channelReady = Some Map.empty, notifyChanClose = Some Map.empty,
       trace = [Dial ''amqp://broker'', ConnNotifyClose 10 11, Go ListenConn], fresh = 12,
       watchers = []\<rparr>,
      None)"
  using NewAmqpDrive_result [of "''amqp://broker''" "Some 1" "Some 2" "Some broker_down" "[]" 10]
    NewAmqpDrive_result [of "''amqp://broker''" "Some 1" "Some 2" None "[]" 10]
  by (simp add: prod_eq_iff)

lemma reconnect_loop_failures: "reconnect_loop (map Some errs) c s = None"
  by (induction errs arbitrary: c s) (simp_all add: Let_def)

lemma enumerate_shift:
  "map f (enumerate (Suc n) xs) = map (\<lambda>(i, x). f (Suc i, x)) (enumerate n xs)"
  by (induction xs arbitrary: n) simp_all

lemma reconnect_loop_success:
  "reconnect_loop (map Some errs @ None # rest) c s =
     Some (s\<lparr>conn := Some (fresh s),
             notifyConnClose := Some (fresh s + 1),
             trace := trace s @
               concat (map (\<lambda>(i, err).
                  [Sleep (Second * 5),
                   LogInfo [S ''Trying to reconnect:'', N (sint (c + 1 + of_nat i))],
                   Dial (url s), LogError [E err]]) (enumerate 0 errs)) @
               [Sleep (Second * 5),
                LogInfo [S ''Trying to reconnect:'', N (sint (c + 1 + of_nat (length errs)))],
                Dial (url s), ConnNotifyClose (fresh s) (fresh s + 1), Go ListenConn,
                LogInfo [S ''Attempt to reconnect successfully'']],
             fresh := fresh s + 2\<rparr>)"
proof (induction errs arbitrary: c s)
  case Nil
  show ?case by (simp add: Let_def emit_def)
next
  case (Cons e es)
  show ?case
    by (simp add: Let_def emit_def Cons.IH enumerate_shift [of _ 0] add.commute add.left_commute)
qed

lemma all_failures: "None \<notin> set dials \<Longrightarrow> map Some (map the dials) = dials"
  by (induction dials) auto

lemma sleeps_failed_rounds:
  "sleeps (concat (map (\<lambda>(i, err). [Sleep d, LogInfo (f i), Dial u, LogError [E err]]) xs)) =
     replicate (length xs) d"
  by (induction xs) auto

text \<open>
  C7: once the connection watcher has received the close notification, it logs the
  disconnection at error level and retries. While every dial fails the loop goes on,
  however many dials that is, and it returns only if some dial succeeded. When the
  dial succeeds after any number of failures, each round, failed or not, slept
  \<open>5 * time.Second\<close> before its dial and nothing else was slept; the connection handle
  is then replaced, the close notification is registered on the new connection, and a
  new watcher is started.
\<close>

theorem listenConn_retries:
  assumes "notifyConnClose s = Some n"
  shows "listenConn (map Some errs) s = None \<and>
    (listenConn dials s \<noteq> None \<longrightarrow> None \<in> set dials) \<and>
    (\<exists>s'. listenConn (map Some errs @ None # rest) s = Some (Ok s') \<and>
       conn s' = Some (fresh s) \<and>
       notifyConnClose s' = Some (fresh s + 1) \<and>
       trace s' = trace s @ [LogError [S ''AMQP connection has been disconnected'']] @
         concat (map (\<lambda>(i, err).
           [Sleep (Second * 5),
            LogInfo [S ''Trying to reconnect:'', N (sint (1 + of_nat i :: 64 word))],
            Dial (url s), LogError [E err]]) (enumerate 0 errs)) @
         [Sleep (Second * 5),
          LogInfo [S ''Trying to reconnect:'', N (sint (1 + of_nat (length errs) :: 64 word))],
          Dial (url s), ConnNotifyClose (fresh s) (fresh s + 1), Go ListenConn,
          LogInfo [S ''Attempt to reconnect successfully'']] \<and>
       sleeps (trace s') = sleeps (trace s) @ replicate (Suc (length errs)) (Second * 5))"
proof -
  have never: "listenConn (map Some es) s = None" for es
    using assms by (simp add: listenConn_def reconnected_def reconnect_loop_failures)
  have only: "None \<in> set dials" if "listenConn dials s \<noteq> None"
  proof (rule ccontr)
    assume "None \<notin> set dials"
    then have eq: "map Some (map the dials) = dials"
      by (rule all_failures)
    have "listenConn (map Some (map the dials)) s = None"
      by (rule never)
    then have "listenConn dials s = None"
      by (simp only: eq)
    with that show False by simp
  qed
  have "sleeps (concat (map (\<lambda>(i, err).
           [Sleep (Second * 5),
            LogInfo [S ''Trying to reconnect:'', N (sint (1 + of_nat i :: 64 word))],
            Dial (url s), LogError [E err]]) (enumerate 0 errs))) =
        replicate (length (enumerate 0 errs)) (Second * 5)"
    by (rule sleeps_failed_rounds
        [where f = "\<lambda>i. [S ''Trying to reconnect:'', N (sint (1 + of_nat i :: 64 word))]"])
  then show ?thesis
    using assms never only
    by (simp add: listenConn_def reconnected_def reconnect_loop_success emit_def sleeps_append
        replicate_append_same del: enumerate_eq_zip)
qed

theorem listenConn_retries_witness:
  "notifyConnClose started = Some 11 \<and>
   listenConn [Some broker_down, Some broker_down] started = None \<and>
   listenConn [Some broker_down, Some broker_down, None] started =
     Some (Ok (started
       \<lparr>conn := Some 12, notifyConnClose := Some 13,
        trace := trace started @
          [LogError [S ''AMQP connection has been disconnected''],
           Sleep 5000000000, LogInfo [S ''Trying to reconnect:'', N 1], Dial ''amqp://broker'',
           LogError [E broker_down],
           Sleep 5000000000, LogInfo [S ''Trying to reconnect:'', N 2], Dial ''amqp://broker'',
           LogError [E broker_down],
           Sleep 5000000000, LogInfo [S ''Trying to reconnect:'', N 3], Dial ''amqp://broker'',
           ConnNotifyClose 12 13, Go ListenConn,
           LogInfo [S ''Attempt to reconnect successfully'']],
        fresh := 14\<rparr>))"
  using listenConn_retries [of started 11 "[broker_down, broker_down]"
      "[Some broker_down, Some broker_down, None]" "[]"]
  by (simp add: started_def NewAmqpDrive_def listenConn_def reconnected_def emit_def Let_def
      Second_def)

section \<open>Starting consumption\<close>

text \<open>
  C6: when the identity has a channel in the registry, \<open>SetConsume\<close> returns an error
  exactly when \<open>Consume\<close> does not establish the stream, and the error is the one
  \<open>Consume\<close> gave. When it returns the error the identity's readiness flag is false and
  no goroutine was started; when it returns nil the flag is true and the per-message
  loop was started on the new stream. \<open>Consume\<close> was called on the identity's channel
  for the queue, with the identity as consumer tag and all four flags false.
\<close>

theorem SetConsume_result:
  assumes "channel s = Some chs" and "chs (Identity option) = Some h"
    and "channelReady s = Some flags"
  shows "((\<exists>err s'. SetConsume option r s = Ok (Some err, s')) \<longleftrightarrow> r \<noteq> None) \<and>
    (\<forall>err. r = Some err \<longrightarrow>
       (\<exists>s'. SetConsume option r s = Ok (Some err, s') \<and>
          ready_Get (channelReady s') (Identity option) = Ok False \<and>
          trace s' = trace s @
            [Consume h (Queue option) (Identity option) False False False False] \<and>
          spawned (trace s') = spawned (trace s))) \<and>
    (r = None \<longrightarrow>
       (\<exists>s'. SetConsume option r s = Ok (None, s') \<and>
          ready_Get (channelReady s') (Identity option) = Ok True \<and>
          trace s' = trace s @
            [Consume h (Queue option) (Identity option) False False False False,
             Go (ConsumeLoop option (fresh s))] \<and>
          spawned (trace s') = spawned (trace s) @ [ConsumeLoop option (fresh s)]))"
  using assms
  by (cases r)
    (simp_all add: SetConsume_def registry_Get_def registry_Set_def ready_Get_def emit_def Let_def
      spawned_append)

theorem SetConsume_result_witness:
  "registry_Get (channel opened_channel) (Identity example_option) = Ok (Some 12) \<and>
   (\<exists>s'. SetConsume example_option (Some consume_refused) opened_channel =
            Ok (Some consume_refused, s') \<and>
         ready_Get (channelReady s') ''orders-1'' = Ok False \<and>
         spawned (trace s') = spawned (trace opened_channel)) \<and>
   (\<exists>s'. SetConsume example_option None opened_channel = Ok (None, s') \<and>
         ready_Get (channelReady s') ''orders-1'' = Ok True \<and>
         spawned (trace s') = spawned (trace opened_channel) @ [ConsumeLoop example_option 15])"
  using SetConsume_result [of opened_channel "[''orders-1'' \<mapsto> 12]" example_option 12 Map.empty
      "Some consume_refused"]
    SetConsume_result [of opened_channel "[''orders-1'' \<mapsto> 12]" example_option 12 Map.empty None]
  by (simp add: example_states example_attempts operations spawned_append)

section \<open>The refresh procedure\<close>

lemma SetChannel_sleeps:
  "SetChannel ID r s = Ok (e, s') \<Longrightarrow> sleeps (trace s') = sleeps (trace s)"
  by (auto simp: SetChannel_def listenChannel_select_def emit_def registry_Set_def
      registry_Get_def sleeps_append Let_def split: option.splits)

lemma SetChannel_spawns:
  "SetChannel ID r s = Ok (None, s') \<Longrightarrow> spawned (trace s') = spawned (trace s) @ [ListenChannel ID]"
  by (auto simp: SetChannel_def listenChannel_select_def emit_def registry_Set_def
      registry_Get_def spawned_append Let_def split: option.splits)

lemma SetConsume_sleeps:
  "SetConsume option r s = Ok (e, s') \<Longrightarrow> sleeps (trace s') = sleeps (trace s)"
  by (auto simp: SetConsume_def emit_def registry_Set_def registry_Get_def sleeps_append Let_def
      split: option.splits)

lemma SetConsume_failure_spawns_nothing:
  "SetConsume option r s = Ok (Some err, s') \<Longrightarrow> spawned (trace s') = spawned (trace s)"
  by (auto simp: SetConsume_def emit_def registry_Set_def registry_Get_def spawned_append Let_def
      split: option.splits)

lemma SetConsume_leaves_flags:
  "SetConsume option r s = Ok (e, s') \<Longrightarrow> \<exists>b. ready_Get (channelReady s') ID = Ok b"
  by (auto simp: SetConsume_def emit_def registry_Set_def registry_Get_def ready_Get_def Let_def
      split: option.splits)

lemma refreshChannel_sleeps:
  "refreshChannel ID attempts s = Some (Ok s') \<Longrightarrow> sleeps (trace s') = sleeps (trace s)"
proof (induction attempts arbitrary: s)
  case Nil
  then show ?case by simp
next
  case (Cons a rest)
  show ?case
  proof (cases "SetChannel ID (opened a) s")
    case (Ok r)
    obtain e s1 where r: "r = (e, s1)" by (cases r)
    have s1: "sleeps (trace s1) = sleeps (trace s)"
      using Ok r by (simp add: SetChannel_sleeps)
    show ?thesis
    proof (cases e)
      case (Some err)
      with Cons Ok r s1 show ?thesis by simp
    next
      case None
      show ?thesis
      proof (cases "looked_up a")
        case (Inl err)
        with Cons.prems Ok r None
        have "refreshChannel ID rest (emit [SchemaGet ID] s1) = Some (Ok s')"
          by simp
        then have "sleeps (trace s') = sleeps (trace (emit [SchemaGet ID] s1))"
          by (rule Cons.IH)
        with s1 show ?thesis by (simp add: emit_def sleeps_append)
      next
        case (Inr option)
        show ?thesis
        proof (cases "SetConsume option (consumed a) (emit [SchemaGet ID] s1)")
          case consume: (Ok r2)
          obtain e2 s2 where r2: "r2 = (e2, s2)" by (cases r2)
          have s2: "sleeps (trace s2) = sleeps (trace s)"
            using consume r2 s1
              SetConsume_sleeps [of option "consumed a" "emit [SchemaGet ID] s1" e2 s2]
            by (simp add: emit_def sleeps_append)
          show ?thesis
          proof (cases e2)
            case stream: None
            with Cons.prems Ok r None Inr consume r2 s2 show ?thesis
              by (auto simp: emit_def sleeps_append)
          next
            case (Some err)
            show ?thesis
            proof (cases "ready_Get (channelReady s2) ID")
              case ready: (Ok b)
              show ?thesis
              proof (cases b)
                case True
                with Cons.prems Ok r None Inr consume r2 Some ready
                have "refreshChannel ID rest s2 = Some (Ok s')" by simp
                then have "sleeps (trace s') = sleeps (trace s2)" by (rule Cons.IH)
                with s2 show ?thesis by simp
              next
                case False
                with Cons.prems Ok r None Inr consume r2 Some ready s2 show ?thesis by simp
              qed
            next
              case Panic
              with Cons.prems Ok r None Inr consume r2 Some show ?thesis by simp
            next
              case Blocked
              with Cons.prems Ok r None Inr consume r2 Some show ?thesis by simp
            qed
          qed
        next
          case Panic
          with Cons.prems Ok r None Inr show ?thesis by simp
        next
          case Blocked
          with Cons.prems Ok r None Inr show ?thesis by simp
        qed
      qed
    qed
  next
    case Panic
    with Cons.prems show ?thesis by simp
  next
    case Blocked
    with Cons.prems show ?thesis by simp
  qed
qed

text \<open>
  C4, amended: in a turn of the refresh loop, a failure to reopen the channel, and a
  failure of the configuration lookup after the channel was reopened, both lead
  straight to the next turn, and nothing was slept in between. A failure to start
  consumption leads to the next turn when the identity's readiness flag then reads
  true, and ends the loop otherwise, with the state \<open>SetConsume\<close> left; the turn has
  then started the channel watcher of \<open>SetChannel\<close> and no per-message loop. A refresh
  that returns has slept nothing at all. What that watcher does afterwards is not part
  of the statement.
\<close>

theorem refreshChannel_retries:
  "(SetChannel ID (opened a) s = Ok (Some err, s1) \<longrightarrow>
      refreshChannel ID (a # rest) s = refreshChannel ID rest s1 \<and>
      sleeps (trace s1) = sleeps (trace s)) \<and>
   (SetChannel ID (opened a) s = Ok (None, s1) \<and> looked_up a = Inl err \<longrightarrow>
      refreshChannel ID (a # rest) s = refreshChannel ID rest (emit [SchemaGet ID] s1) \<and>
      sleeps (trace (emit [SchemaGet ID] s1)) = sleeps (trace s)) \<and>
   (SetChannel ID (opened a) s = Ok (None, s1) \<and> looked_up a = Inr option \<and>
    SetConsume option (consumed a) (emit [SchemaGet ID] s1) = Ok (Some err, s2) \<longrightarrow>
      sleeps (trace s2) = sleeps (trace s) \<and>
      spawned (trace s2) = spawned (trace s) @ [ListenChannel ID] \<and>
      refreshChannel ID (a # rest) s =
        (if ready_Get (channelReady s2) ID = Ok True then refreshChannel ID rest s2
         else Some (Ok s2))) \<and>
   (refreshChannel ID attempts s = Some (Ok s') \<longrightarrow> sleeps (trace s') = sleeps (trace s))"
proof -
  have chan: "sleeps (trace s1) = sleeps (trace s)"
    if "SetChannel ID (opened a) s = Ok (e, s1)" for e
    using that by (rule SetChannel_sleeps)
  have cons: "sleeps (trace s2) = sleeps (trace s)"
    if "SetChannel ID (opened a) s = Ok (None, s1)"
      and "SetConsume option (consumed a) (emit [SchemaGet ID] s1) = Ok (Some err, s2)"
    using SetConsume_sleeps [OF that(2)] chan [OF that(1)] by (simp add: emit_def sleeps_append)
  have idle: "spawned (trace s2) = spawned (trace s) @ [ListenChannel ID]"
    if "SetChannel ID (opened a) s = Ok (None, s1)"
      and "SetConsume option (consumed a) (emit [SchemaGet ID] s1) = Ok (Some err, s2)"
    using SetConsume_failure_spawns_nothing [OF that(2)] SetChannel_spawns [OF that(1)]
    by (simp add: emit_def spawned_append)
  have turn: "refreshChannel ID (a # rest) s =
      (if ready_Get (channelReady s2) ID = Ok True then refreshChannel ID rest s2
       else Some (Ok s2))"
    if ch: "SetChannel ID (opened a) s = Ok (None, s1)" and lk: "looked_up a = Inr option"
      and cs: "SetConsume option (consumed a) (emit [SchemaGet ID] s1) = Ok (Some err, s2)"
  proof -
    obtain b where "ready_Get (channelReady s2) ID = Ok b"
      using SetConsume_leaves_flags [OF cs] by blast
    with ch lk cs show ?thesis by (cases b) simp_all
  qed
  show ?thesis
    using chan cons idle turn refreshChannel_sleeps [of ID attempts s s']
    by (auto simp: emit_def sleeps_append)
qed

theorem refreshChannel_retries_witness:
  "SetChannel ''orders-1'' (opened refused_attempt) channel_lost =
     Ok (Some not_open, emit [ChannelRefused 10 not_open] channel_lost) \<and>
   refreshChannel ''orders-1'' [refused_attempt, good_attempt] channel_lost =
     refreshChannel ''orders-1'' [good_attempt] (emit [ChannelRefused 10 not_open] channel_lost) \<and>
   SetChannel ''orders-1'' (opened lookup_failed_attempt) channel_lost = Ok (None, reopened) \<and>
   looked_up lookup_failed_attempt = Inl lookup_failed \<and>
   refreshChannel ''orders-1'' [lookup_failed_attempt, good_attempt] channel_lost =
     refreshChannel ''orders-1'' [good_attempt] (emit [SchemaGet ''orders-1''] reopened) \<and>
   SetConsume example_option (consumed consume_failed_attempt)
       (emit [SchemaGet ''orders-1''] reopened) = Ok (Some consume_refused, refresh_gave_up) \<and>
   ready_Get (channelReady refresh_gave_up) ''orders-1'' = Ok False \<and>
   refreshChannel ''orders-1'' [consume_failed_attempt, good_attempt] channel_lost =
     Some (Ok refresh_gave_up) \<and>
   spawned (trace refresh_gave_up) =
     spawned (trace channel_lost) @ [ListenChannel ''orders-1''] \<and>
   refreshChannel ''orders-1'' [lookup_failed_attempt, good_attempt] channel_lost =
     Some (Ok refreshed) \<and>
   sleeps (trace refreshed) = []"
proof -
  have refused: "SetChannel ''orders-1'' (opened refused_attempt) channel_lost =
      Ok (Some not_open, emit [ChannelRefused 10 not_open] channel_lost)"
    by (simp add: example_states example_attempts operations)
  have again: "SetChannel ''orders-1'' None channel_lost = Ok (None, reopened)"
    by (simp add: example_states operations)
  have gave_up: "SetConsume example_option (Some consume_refused)
      (emit [SchemaGet ''orders-1''] reopened) = Ok (Some consume_refused, refresh_gave_up)"
    by (simp add: example_states example_attempts operations)
  have flag_off: "ready_Get (channelReady refresh_gave_up) ''orders-1'' = Ok False"
    by (simp add: example_states ready_Get_def)
  have ends: "refreshChannel ''orders-1'' [lookup_failed_attempt, good_attempt] channel_lost =
      Some (Ok refreshed)"
    by (simp add: example_states example_attempts operations)
  have quiet: "sleeps (trace channel_lost) = []"
    by (simp add: example_states)
  have failed: "looked_up lookup_failed_attempt = Inl lookup_failed"
    by (simp add: lookup_failed_attempt_def)
  note turn = refreshChannel_retries [where ID = "''orders-1''" and rest = "[good_attempt]"]
  have t1: "refreshChannel ''orders-1'' [refused_attempt, good_attempt] channel_lost =
      refreshChannel ''orders-1'' [good_attempt] (emit [ChannelRefused 10 not_open] channel_lost)"
    using refused
      turn [where a = refused_attempt and s = channel_lost and err = not_open
        and ?s1.0 = "emit [ChannelRefused 10 not_open] channel_lost"]
    by blast
  have t2: "refreshChannel ''orders-1'' [lookup_failed_attempt, good_attempt] channel_lost =
      refreshChannel ''orders-1'' [good_attempt] (emit [SchemaGet ''orders-1''] reopened) \<and>
      sleeps (trace refreshed) = sleeps (trace channel_lost)"
    using again failed ends
      turn [where a = lookup_failed_attempt and s = channel_lost and err = lookup_failed
        and ?s1.0 = reopened and attempts = "[lookup_failed_attempt, good_attempt]"
        and s' = refreshed]
    by (simp add: lookup_failed_attempt_def)
  have t3: "refreshChannel ''orders-1'' [consume_failed_attempt, good_attempt] channel_lost =
      Some (Ok refresh_gave_up) \<and>
      spawned (trace refresh_gave_up) =
        spawned (trace channel_lost) @ [ListenChannel ''orders-1'']"
    using again gave_up flag_off
      turn [where a = consume_failed_attempt and s = channel_lost and err = consume_refused
        and ?s1.0 = reopened and option = example_option and ?s2.0 = refresh_gave_up]
    by (simp add: consume_failed_attempt_def)
  show ?thesis
    using refused again failed gave_up flag_off ends quiet t1 t2 t3
    by (simp add: example_attempts)
qed

text \<open>
  A turn of \<open>refreshChannel\<close> is \<open>SetChannel\<close>, the lookup, the call of \<open>Consume\<close>, and
  \<open>refreshChannel_resume\<close>, when no other goroutine acts in between.
\<close>

lemma SetConsume_split:
  "SetConsume option r s = and_then (SetConsume_call option s) (SetConsume_finish option r)"
  by (cases r)
    (auto simp: SetConsume_def SetConsume_call_def SetConsume_finish_def registry_Get_def Let_def
      split: option.splits)

lemma refreshChannel_split:
  "refreshChannel ID (a # rest) s =
    (case SetChannel ID (opened a) s of
       Panic \<Rightarrow> Some Panic
     | Blocked \<Rightarrow> Some Blocked
     | Ok (Some err, s) \<Rightarrow> refreshChannel ID rest s
     | Ok (None, s) \<Rightarrow>
         (case looked_up a of
            Inl err \<Rightarrow> refreshChannel ID rest (emit [SchemaGet ID] s)
          | Inr option \<Rightarrow>
              (case SetConsume_call option (emit [SchemaGet ID] s) of
                 Panic \<Rightarrow> Some Panic
               | Blocked \<Rightarrow> Some Blocked
               | Ok s \<Rightarrow> refreshChannel_resume ID option (consumed a) rest s)))"
  by (auto simp: refreshChannel_resume_def SetConsume_split Let_def
      split: exec.splits option.splits sum.splits prod.splits bool.splits)

text \<open>
  C4, as the claim states it, fails in its last clause: when the refresh loop exits on
  a false flag the subscription need not stay inactive. Every turn starts a new
  channel watcher in \<open>SetChannel\<close>, and that watcher reads the flag on its own when the
  channel of the turn is closed. Here the watcher of \<open>orders-1\<close> has noticed the loss of
  channel 12 and refreshes. The turn reopens the channel (16) and calls \<open>Consume\<close>; the
  broker refuses and closes channel 16. The watcher that this turn started takes the
  close notification before \<open>SetConsume\<close> has written the flag, reads true and
  refreshes with success: channel 19 is opened and the per-message loop 22 started.
  Then \<open>SetConsume\<close> writes false and returns the error, the loop reads false and
  exits. The loop has exited on a false flag, and the subscription is consuming again
  on a live channel without having been reopened.
\<close>

theorem raced_watcher_reactivates:
  "listenChannel (''orders-1'', Some 14, Some 13) RecvNotifyChanClose [consume_failed_attempt]
       channel_lost =
     refreshChannel ''orders-1'' [consume_failed_attempt] noticed \<and>
   SetChannel ''orders-1'' (opened consume_failed_attempt) noticed = Ok (None, renewed) \<and>
   looked_up consume_failed_attempt = Inr example_option \<and>
   SetConsume_call example_option (emit [SchemaGet ''orders-1''] renewed) = Ok consume_asked \<and>
   woken 16 refused_channel_died = [(''orders-1'', Some 18, Some 17)] \<and>
   ready_Get (channelReady refused_channel_died) ''orders-1'' = Ok True \<and>
   notify_closed 16 [good_attempt] refused_channel_died = Some (Ok raced) \<and>
   refreshChannel_resume ''orders-1'' example_option (consumed consume_failed_attempt) [] raced =
     Some (Ok reactivated) \<and>
   ready_Get (channelReady reactivated) ''orders-1'' = Ok False \<and>
   spawned (trace reactivated) =
     spawned (trace noticed) @
       [ListenChannel ''orders-1'', ListenChannel ''orders-1'', ConsumeLoop example_option 22] \<and>
   live_handles (trace reactivated) [] = [19]"
proof -
  have p1: "listenChannel (''orders-1'', Some 14, Some 13) RecvNotifyChanClose
      [consume_failed_attempt] channel_lost =
      refreshChannel ''orders-1'' [consume_failed_attempt] noticed"
    by (simp add: listenChannel_def Let_def noticed_def ready_Get_def emit_def leave_select_def
        channel_lost_eq)
  have p2: "SetChannel ''orders-1'' (opened consume_failed_attempt) noticed = Ok (None, renewed)"
    by (simp add: example_states example_attempts operations)
  have p3: "SetConsume_call example_option (emit [SchemaGet ''orders-1''] renewed) = Ok consume_asked"
    by (simp add: consume_asked_def example_states example_attempts operations)
  have p4: "woken 16 refused_channel_died = [(''orders-1'', Some 18, Some 17)]"
    by (simp add: example_states woken_def)
  have p5: "ready_Get (channelReady refused_channel_died) ''orders-1'' = Ok True"
    by (simp add: example_states ready_Get_def)
  have p6: "notify_closed 16 [good_attempt] refused_channel_died = Some (Ok raced)"
    by (simp add: example_states example_attempts operations Let_def)
  have p7: "refreshChannel_resume ''orders-1'' example_option (consumed consume_failed_attempt) []
      raced = Some (Ok reactivated)"
    by (simp add: example_states example_attempts operations)
  have p8: "ready_Get (channelReady reactivated) ''orders-1'' = Ok False"
    by (simp add: example_states ready_Get_def)
  have p9: "spawned (trace reactivated) =
      spawned (trace noticed) @
        [ListenChannel ''orders-1'', ListenChannel ''orders-1'', ConsumeLoop example_option 22]"
    by (simp add: example_states spawned_append)
  have p10: "live_handles (trace reactivated) [] = [19]"
    by (simp add: example_states)
  show ?thesis
    using p1 p2 p3 p4 p5 p6 p7 p8 p9 p10 by (simp add: consume_failed_attempt_def)
qed



section \<open>Live channels\<close>

text \<open>
  C8, as the claim states it, fails: \<open>SetChannel\<close> never looks at the handle it
  replaces. Here the channel of \<open>orders-1\<close> was lost, so no handle is live. The first
  turn of the refresh opens handle 16 and then fails to look the configuration up;
  the second turn opens handle 19 and stores it over 16 while 16 is live. The refresh
  ends with both handles live.
\<close>

theorem refresh_leaks_channel:
  "live_handles (trace channel_lost) [] = [] \<and>
   refreshChannel ''orders-1'' [lookup_failed_attempt, good_attempt] channel_lost =
     refreshChannel ''orders-1'' [good_attempt] (emit [SchemaGet ''orders-1''] reopened) \<and>
   registry_Get (channel (emit [SchemaGet ''orders-1''] reopened)) ''orders-1'' = Ok (Some 16) \<and>
   live_handles (trace (emit [SchemaGet ''orders-1''] reopened)) [] = [16] \<and>
   refreshChannel ''orders-1'' [good_attempt] (emit [SchemaGet ''orders-1''] reopened) =
     Some (Ok refreshed) \<and>
   registry_Get (channel refreshed) ''orders-1'' = Ok (Some 19) \<and>
   live_handles (trace refreshed) [] = [16, 19]"
  by (simp add: example_states example_attempts operations)

text \<open>
  C8, amended: the registry holds one handle for an identity, the one installed last.
  \<open>SetChannel\<close> installs unconditionally: when the connection grants a channel, the new
  handle replaces the identity's entry whatever the state of the previous handle, and
  nothing is closed, so the handles that were live are still live, with the new one
  added. When the connection refuses, the registry and the live handles are as before.
\<close>

theorem SetChannel_keeps_live_handles:
  assumes "conn s = Some cn" and "channel s = Some chs" and "channelDone s = Some dones"
    and "notifyChanClose s = Some notifies"
  shows "(\<exists>s'. SetChannel ID None s = Ok (None, s') \<and>
            channel s' = Some (chs(ID \<mapsto> fresh s)) \<and>
            live_handles (trace s') [] = live_handles (trace s) [] @ [fresh s]) \<and>
         (\<exists>s'. SetChannel ID (Some err) s = Ok (Some err, s') \<and>
            channel s' = Some chs \<and>
            live_handles (trace s') [] = live_handles (trace s) [])"
  using assms
  by (simp add: SetChannel_def listenChannel_select_def registry_Set_def registry_Get_def
      emit_def Let_def live_handles_append)

theorem SetChannel_keeps_live_handles_witness:
  "conn (emit [SchemaGet ''orders-1''] reopened) = Some 10 \<and>
   channel (emit [SchemaGet ''orders-1''] reopened) = Some [''orders-1'' \<mapsto> 16] \<and>
   live_handles (trace (emit [SchemaGet ''orders-1''] reopened)) [] = [16] \<and>
   (\<exists>s'. SetChannel ''orders-1'' None (emit [SchemaGet ''orders-1''] reopened) = Ok (None, s') \<and>
         channel s' = Some [''orders-1'' \<mapsto> 19] \<and>
         live_handles (trace s') [] = [16, 19]) \<and>
   (\<exists>s'. SetChannel ''orders-1'' (Some not_open) (emit [SchemaGet ''orders-1''] reopened) =
           Ok (Some not_open, s') \<and>
         channel s' = Some [''orders-1'' \<mapsto> 16] \<and>
         live_handles (trace s') [] = [16])"
  using SetChannel_keeps_live_handles [of "emit [SchemaGet ''orders-1''] reopened" 10
      "[''orders-1'' \<mapsto> 16]" "[''orders-1'' \<mapsto> 17]" "[''orders-1'' \<mapsto> 18]"
      "''orders-1''" not_open]
  by (simp add: example_states emit_def)

section \<open>Teardown\<close>


lemma distinct_map_remove1: "distinct (map f xs) \<Longrightarrow> distinct (map f (remove1 x xs))"
proof (induction xs)
  case Nil
  then show ?case by simp
next
  case (Cons y ys)
  have "f ` set (remove1 x ys) \<subseteq> f ` set ys"
    using set_remove1_subset [of x ys] by blast
  with Cons show ?case by auto
qed

lemma paired_frame:
  assumes "paired s"
    and ws: "set (watchers s') \<subseteq> set (watchers s)"
    and dd': "dones_distinct s'"
    and ch: "channel s' = channel s" and dn: "channelDone s' = channelDone s"
    and fr: "fresh s \<le> fresh s'"
    and tr: "\<And>h n. ChanNotifyClose h n \<in> set (trace s') \<Longrightarrow> ChanNotifyClose h n \<in> set (trace s)"
  shows "paired s'"
proof -
  from assms(1) have wb: "watchers_below s" and nb: "notifies_below s"
    and rb: "registries_below s" and np: "notify_paired s"
    by (simp_all add: paired_def)
  have "watchers_below s'"
    unfolding watchers_below_def
  proof (intro allI impI)
    fix ID n d
    assume "(ID, n, d) \<in> set (watchers s')"
    with ws have "(ID, n, d) \<in> set (watchers s)" by blast
    with wb obtain x y where "n = Some x" "d = Some y" "x < fresh s" "y < fresh s"
      unfolding watchers_below_def by blast
    with fr show "\<exists>x y. n = Some x \<and> d = Some y \<and> x < fresh s' \<and> y < fresh s'"
      by auto
  qed
  moreover have "notifies_below s'"
    unfolding notifies_below_def
  proof (intro allI impI)
    fix h n
    assume "ChanNotifyClose h n \<in> set (trace s')"
    then have "ChanNotifyClose h n \<in> set (trace s)" by (rule tr)
    with nb have "h < fresh s \<and> n < fresh s" unfolding notifies_below_def by blast
    with fr show "h < fresh s' \<and> n < fresh s'" by auto
  qed
  moreover have "registries_below s'"
    using rb fr unfolding registries_below_def ch dn
    by (meson less_le_trans)
  moreover have "notify_paired s'"
    unfolding notify_paired_def ch dn
  proof (intro allI impI)
    fix chs dones ID h d ID' n d'
    assume a: "channel s = Some chs \<and> chs ID = Some h \<and> channelDone s = Some dones \<and>
       dones ID = Some d \<and> (ID', Some n, d') \<in> set (watchers s') \<and>
       ChanNotifyClose h n \<in> set (trace s')"
    then have "(ID', Some n, d') \<in> set (watchers s)" using ws by blast
    moreover have "ChanNotifyClose h n \<in> set (trace s)" using a tr by blast
    ultimately show "d' = Some d"
      using np a unfolding notify_paired_def by blast
  qed
  ultimately show ?thesis using dd' by (simp add: paired_def)
qed

lemma paired_leave_select:
  assumes "paired s"
  shows "paired (leave_select w s)"
proof (rule paired_frame [OF assms])
  show "set (watchers (leave_select w s)) \<subseteq> set (watchers s)"
    by (simp add: leave_select_def set_remove1_subset)
  show "dones_distinct (leave_select w s)"
    using assms by (simp add: paired_def dones_distinct_def leave_select_def distinct_map_remove1)
qed (simp_all add: leave_select_def)

lemma paired_emit:
  assumes "paired s" and "\<And>h n. ChanNotifyClose h n \<notin> set evs"
  shows "paired (emit evs s)"
proof (rule paired_frame [OF assms(1)])
  show "dones_distinct (emit evs s)"
    using assms(1) by (simp add: paired_def dones_distinct_def emit_def)
  show "ChanNotifyClose h n \<in> set (trace s)" if "ChanNotifyClose h n \<in> set (trace (emit evs s))" for h n
    using that assms(2) by (simp add: emit_def)
qed (simp_all add: emit_def)

lemma paired_SetConsume_finish:
  assumes "paired s" and "SetConsume_finish option r s = Ok (e, s')"
  shows "paired s'"
proof -
  obtain flags where s': "s' = s\<lparr>channelReady := flags\<rparr> \<or>
      s' = s\<lparr>channelReady := flags, trace := trace s @ [Go (ConsumeLoop option (fresh s))],
             fresh := fresh s + 1\<rparr>"
    using assms(2)
    by (auto simp: SetConsume_finish_def registry_Set_def split: option.splits)
  show ?thesis
  proof (rule paired_frame [OF assms(1)])
    show "dones_distinct s'"
      using assms(1) s' by (auto simp: paired_def dones_distinct_def)
    show "ChanNotifyClose h n \<in> set (trace s)" if "ChanNotifyClose h n \<in> set (trace s')" for h n
      using that s' by auto
  qed (use s' in auto)
qed

lemma paired_SetConsume_call:
  assumes "paired s" and "SetConsume_call option s = Ok s'"
  shows "paired s'"
proof -
  obtain h where "s' = emit [Consume h (Queue option) (Identity option) False False False False] s"
    using assms(2)
    by (auto simp: SetConsume_call_def registry_Get_def split: option.splits)
  with assms(1) show ?thesis by (simp add: paired_emit)
qed

lemma paired_SetConsume:
  assumes "paired s" and "SetConsume option r s = Ok (e, s')"
  shows "paired s'"
proof -
  from assms(2) obtain s1 where "SetConsume_call option s = Ok s1"
    and "SetConsume_finish option r s1 = Ok (e, s')"
    by (cases "SetConsume_call option s") (simp_all add: SetConsume_split)
  with assms(1) show ?thesis
    by (blast intro: paired_SetConsume_call paired_SetConsume_finish)
qed

lemma SetChannel_refused:
  "SetChannel ID r s = Ok (Some err, s') \<Longrightarrow> \<exists>cn. s' = emit [ChannelRefused cn err] s"
  by (auto simp: SetChannel_def listenChannel_select_def registry_Set_def registry_Get_def Let_def
      split: option.splits)

lemma SetChannel_opened:
  assumes "SetChannel ID r s = Ok (None, s')"
  shows "\<exists>cn chs dones notifies.
    conn s = Some cn \<and> channel s = Some chs \<and> channelDone s = Some dones \<and>
    notifyChanClose s = Some notifies \<and>
    s' = s\<lparr>channel := Some (chs(ID \<mapsto> fresh s)),
           channelDone := Some (dones(ID \<mapsto> fresh s + 1)),
           notifyChanClose := Some (notifies(ID \<mapsto> fresh s + 2)),
           trace := trace s @ [ChannelOpened cn (fresh s), ChanNotifyClose (fresh s) (fresh s + 2),
                               Go (ListenChannel ID)],
           fresh := fresh s + 3,
           watchers := watchers s @ [(ID, Some (fresh s + 2), Some (fresh s + 1))]\<rparr>"
  using assms
  by (auto simp: SetChannel_def listenChannel_select_def registry_Set_def registry_Get_def Let_def
      split: option.splits)

lemma paired_SetChannel:
  assumes inv: "paired s" and run: "SetChannel ID r s = Ok (e, s')"
  shows "paired s'"
proof (cases e)
  case (Some err)
  with run obtain cn where "s' = emit [ChannelRefused cn err] s"
    using SetChannel_refused by blast
  with inv show ?thesis by (simp add: paired_emit)
next
  case None
  with run obtain cn chs dones notifies where
    regs: "channel s = Some chs" "channelDone s = Some dones"
    and s': "s' = s\<lparr>channel := Some (chs(ID \<mapsto> fresh s)),
           channelDone := Some (dones(ID \<mapsto> fresh s + 1)),
           notifyChanClose := Some (notifies(ID \<mapsto> fresh s + 2)),
           trace := trace s @ [ChannelOpened cn (fresh s), ChanNotifyClose (fresh s) (fresh s + 2),
                               Go (ListenChannel ID)],
           fresh := fresh s + 3,
           watchers := watchers s @ [(ID, Some (fresh s + 2), Some (fresh s + 1))]\<rparr>"
    using SetChannel_opened by blast
  from inv have wb: "watchers_below s" and nb: "notifies_below s"
    and rb: "registries_below s" and dd: "dones_distinct s" and np: "notify_paired s"
    by (simp_all add: paired_def)
  have old_w: "\<exists>x y. n = Some x \<and> d = Some y \<and> x < fresh s \<and> y < fresh s"
    if "(ID', n, d) \<in> set (watchers s)" for ID' n d
    using wb that unfolding watchers_below_def by blast
  have old_n: "h < fresh s \<and> n < fresh s" if "ChanNotifyClose h n \<in> set (trace s)" for h n
    using nb that unfolding notifies_below_def by blast
  have old_c: "h < fresh s" if "chs ID' = Some h" for ID' h
    using rb regs that unfolding registries_below_def by blast
  have old_d: "d < fresh s" if "dones ID' = Some d" for ID' d
    using rb regs that unfolding registries_below_def by blast
  have "watchers_below s'"
    unfolding watchers_below_def
  proof (intro allI impI)
    fix ID' n d
    assume "(ID', n, d) \<in> set (watchers s')"
    then consider "(ID', n, d) \<in> set (watchers s)"
      | "n = Some (fresh s + 2)" "d = Some (fresh s + 1)"
      by (auto simp: s')
    then show "\<exists>x y. n = Some x \<and> d = Some y \<and> x < fresh s' \<and> y < fresh s'"
    proof cases
      case 1
      then show ?thesis using old_w [of ID' n d] by (auto simp: s')
    next
      case 2
      then show ?thesis by (simp add: s')
    qed
  qed
  moreover have "notifies_below s'"
    unfolding notifies_below_def
  proof (intro allI impI)
    fix h n
    assume "ChanNotifyClose h n \<in> set (trace s')"
    then consider "ChanNotifyClose h n \<in> set (trace s)" | "h = fresh s" "n = fresh s + 2"
      by (auto simp: s')
    then show "h < fresh s' \<and> n < fresh s'"
    proof cases
      case 1
      then show ?thesis using old_n [of h n] by (auto simp: s')
    next
      case 2
      then show ?thesis by (simp add: s')
    qed
  qed
  moreover have "registries_below s'"
    unfolding registries_below_def
  proof (intro conjI allI impI)
    fix chs' ID' h
    assume "channel s' = Some chs' \<and> chs' ID' = Some h"
    then have "h = fresh s \<or> chs ID' = Some h"
      by (auto simp: s' split: if_splits)
    then show "h < fresh s'" using old_c [of ID' h] by (auto simp: s')
  next
    fix dones' ID' d
    assume "channelDone s' = Some dones' \<and> dones' ID' = Some d"
    then have "d = fresh s + 1 \<or> dones ID' = Some d"
      by (auto simp: s' split: if_splits)
    then show "d < fresh s'" using old_d [of ID' d] by (auto simp: s')
  qed
  moreover have "dones_distinct s'"
  proof -
    have "Some (fresh s + 1) \<notin> (\<lambda>w. snd (snd w)) ` set (watchers s)"
    proof
      assume "Some (fresh s + 1) \<in> (\<lambda>w. snd (snd w)) ` set (watchers s)"
      then obtain ID' n where "(ID', n, Some (fresh s + 1)) \<in> set (watchers s)"
        by force
      then show False using old_w [of ID' n "Some (fresh s + 1)"] by simp
    qed
    with dd show ?thesis by (simp add: dones_distinct_def s')
  qed
  moreover have "notify_paired s'"
    unfolding notify_paired_def
  proof (intro allI impI)
    fix chs' dones' ID1 h d ID' n d'
    assume a: "channel s' = Some chs' \<and> chs' ID1 = Some h \<and> channelDone s' = Some dones' \<and>
       dones' ID1 = Some d \<and> (ID', Some n, d') \<in> set (watchers s') \<and>
       ChanNotifyClose h n \<in> set (trace s')"
    show "d' = Some d"
    proof (cases "ID1 = ID")
      case True
      with a have h: "h = fresh s" and d: "d = fresh s + 1" by (auto simp: s')
      from a h have "n = fresh s + 2"
        using old_n [of "fresh s" n] by (auto simp: s')
      with a have "d' = Some (fresh s + 1)"
        using old_w [of ID' "Some (fresh s + 2)" d'] by (auto simp: s')
      with d show ?thesis by simp
    next
      case False
      with a have h: "chs ID1 = Some h" and d: "dones ID1 = Some d" by (auto simp: s')
      from h have "h < fresh s" by (rule old_c)
      with a have ev: "ChanNotifyClose h n \<in> set (trace s)" by (auto simp: s')
      then have "n < fresh s" using old_n by blast
      with a have "(ID', Some n, d') \<in> set (watchers s)" by (auto simp: s')
      with np regs h d ev show ?thesis unfolding notify_paired_def by blast
    qed
  qed
  ultimately show ?thesis by (simp add: paired_def)
qed

lemma paired_refreshChannel:
  "paired s \<Longrightarrow> refreshChannel ID attempts s = Some (Ok s') \<Longrightarrow> paired s'"
proof (induction attempts arbitrary: s)
  case Nil
  then show ?case by simp
next
  case (Cons a rest)
  show ?case
  proof (cases "SetChannel ID (opened a) s")
    case (Ok r)
    obtain e s1 where r: "r = (e, s1)" by (cases r)
    have s1: "paired s1"
      using Cons.prems(1) Ok r by (blast intro: paired_SetChannel)
    have s1': "paired (emit [SchemaGet ID] s1)"
      using s1 by (simp add: paired_emit)
    show ?thesis
    proof (cases e)
      case (Some err)
      with Cons.prems Ok r have "refreshChannel ID rest s1 = Some (Ok s')" by simp
      with s1 show ?thesis by (rule Cons.IH)
    next
      case None
      show ?thesis
      proof (cases "looked_up a")
        case (Inl err)
        with Cons.prems Ok r None
        have "refreshChannel ID rest (emit [SchemaGet ID] s1) = Some (Ok s')" by simp
        with s1' show ?thesis by (rule Cons.IH)
      next
        case (Inr option)
        show ?thesis
        proof (cases "SetConsume option (consumed a) (emit [SchemaGet ID] s1)")
          case consume: (Ok r2)
          obtain e2 s2 where r2: "r2 = (e2, s2)" by (cases r2)
          have s2: "paired s2"
            using s1' consume r2 by (blast intro: paired_SetConsume)
          show ?thesis
          proof (cases e2)
            case stream: None
            with Cons.prems Ok r None Inr consume r2
            have "s' = emit [LogInfo [S ''Channel refresh successfully'']] s2" by simp
            with s2 show ?thesis by (simp add: paired_emit)
          next
            case (Some err)
            show ?thesis
            proof (cases "ready_Get (channelReady s2) ID")
              case ready: (Ok b)
              show ?thesis
              proof (cases b)
                case True
                with Cons.prems Ok r None Inr consume r2 Some ready
                have "refreshChannel ID rest s2 = Some (Ok s')" by simp
                with s2 show ?thesis by (rule Cons.IH)
              next
                case False
                with Cons.prems Ok r None Inr consume r2 Some ready s2 show ?thesis by simp
              qed
            next
              case Panic
              with Cons.prems Ok r None Inr consume r2 Some show ?thesis by simp
            next
              case Blocked
              with Cons.prems Ok r None Inr consume r2 Some show ?thesis by simp
            qed
          qed
        next
          case Panic
          with Cons.prems Ok r None Inr show ?thesis by simp
        next
          case Blocked
          with Cons.prems Ok r None Inr show ?thesis by simp
        qed
      qed
    qed
  next
    case Panic
    with Cons.prems show ?thesis by simp
  next
    case Blocked
    with Cons.prems show ?thesis by simp
  qed
qed

lemma paired_listenChannel:
  assumes "paired s" and "listenChannel w fired attempts s = Some (Ok s')"
  shows "paired s'"
proof -
  let ?s1 = "leave_select w s"
  let ?s2 = "emit [LogError [S ''Channel connection is disconnected:'', S (fst w)]] ?s1"
  have s1: "paired ?s1" using assms(1) by (rule paired_leave_select)
  then have s2: "paired ?s2" by (simp add: paired_emit)
  show ?thesis
  proof (cases fired)
    case RecvChannelDone
    with assms(2) s1 show ?thesis by (simp add: listenChannel_def Let_def)
  next
    case RecvNotifyChanClose
    show ?thesis
    proof (cases "ready_Get (channelReady ?s2) (fst w)")
      case (Ok b)
      show ?thesis
      proof (cases b)
        case True
        with assms(2) RecvNotifyChanClose Ok
        have "refreshChannel (fst w) attempts ?s2 = Some (Ok s')"
          by (simp add: listenChannel_def Let_def)
        with s2 show ?thesis by (rule paired_refreshChannel)
      next
        case False
        with assms(2) RecvNotifyChanClose Ok s2 show ?thesis
          by (simp add: listenChannel_def Let_def)
      qed
    next
      case Panic
      with assms(2) RecvNotifyChanClose show ?thesis by (simp add: listenChannel_def Let_def)
    next
      case Blocked
      with assms(2) RecvNotifyChanClose show ?thesis by (simp add: listenChannel_def Let_def)
    qed
  qed
qed







text \<open>
  For comparison: without the done signal, the close notification of a lost channel
  wakes the watcher, which refreshes.
\<close>

lemma notification_refreshes:
  "woken 12 channel_lost = [(''orders-1'', Some 14, Some 13)] \<and>
   notify_closed 12 [good_attempt] channel_lost = Some (Ok recovered) \<and>
   spawned (trace recovered) =
     spawned (trace channel_lost) @ [ListenChannel ''orders-1'', ConsumeLoop example_option 19]"
  by (simp add: example_states example_attempts operations Let_def spawned_append)

end
